theory Spec2Isabelle
  imports Main
begin

section \<open>Values, errors and promises\<close>

text \<open>
  Source: \<^verbatim>\<open>textlint-core.js\<close> (class TextlintCore) and \<^verbatim>\<open>textlint-engine.js\<close>
  (class TextLintEngine). Texts, extensions and paths are JavaScript strings.
\<close>

type_synonym source = string
type_synonym ext = string
type_synonym path = string

text \<open>
  The exceptions the two files raise or pass on: a failed \<^verbatim>\<open>assert(cond, msg)\<close>, a call or
  property access on \<^verbatim>\<open>null\<close>/\<^verbatim>\<open>undefined\<close>, \<^verbatim>\<open>throw new Error(msg)\<close>, a failing
  \<^verbatim>\<open>fs.readFileSync\<close>, and whatever value a rule handler threw.
\<close>

datatype error =
    AssertionError string
  | TypeError
  | Error string
  | ENOENT path
  | Thrown string

text \<open>
  A promise as its final state. A function that may throw before it returns its promise has
  the result type \<open>error + 'a promise\<close>, \<open>Inl\<close> being the synchronous exception.
\<close>

datatype 'a promise = Resolved 'a | Rejected error | Pending

text \<open>\<^verbatim>\<open>promise.then(f)\<close> where \<^verbatim>\<open>f\<close> returns a plain value.\<close>

fun then_value :: "'a promise \<Rightarrow> ('a \<Rightarrow> 'b) \<Rightarrow> 'b promise" where
  "then_value (Resolved x) f = Resolved (f x)"
| "then_value (Rejected e) f = Rejected e"
| "then_value Pending f = Pending"

section \<open>Collaborators of the core\<close>

text \<open>
  A rule module: the linter, and the optional \<^verbatim>\<open>fixer\<close> export that
  \<^verbatim>\<open>typeof rule.fixer !== "undefined"\<close> tests.
\<close>

record 'v rule =
  linter :: 'v
  fixer :: "'v option"

text \<open>\<^verbatim>\<open>new SourceCode({text, ast, ext, filePath})\<close>; \<^verbatim>\<open>filePath\<close> may be undefined.\<close>

record 'a sourceCode =
  sc_text :: source
  sc_ast :: 'a
  sc_ext :: ext
  sc_filePath :: "path option"

text \<open>
  The argument object of \<^verbatim>\<open>new LinterTask({...})\<close> and \<^verbatim>\<open>new FixerTask({...})\<close>. The
  rule set is an object; it is kept as the list of its entries in \<^verbatim>\<open>Object.keys\<close> order.
\<close>

record ('c, 'o, 'v, 'a) task =
  t_config :: 'c
  t_rules :: "(string \<times> 'v rule) list"
  t_rulesConfig :: 'o
  t_sourceCode :: "'a sourceCode"

text \<open>
  Modelled from the spec: the notification stream of a Task (\<^verbatim>\<open>task/textlint-core-task\<close>,
  \<^verbatim>\<open>task/linter-task\<close> and \<^verbatim>\<open>task/fixer-task\<close> are absent). Section 4.2: zero or more
  diagnostics in order, then either one terminal failure or one done; a task that never
  finishes stalls the pipeline (section 5). The core subscribes to the three events
  \<^verbatim>\<open>message\<close>, \<^verbatim>\<open>error\<close> and \<^verbatim>\<open>complete\<close>.
\<close>

datatype ending = Complete | Failure error | Stalled

record 'm run =
  emitted :: "'m list"
  ending :: ending

text \<open>
  The value of \<^verbatim>\<open>result.messages\<close> as the assertion of the lint pipeline reads it:
  \<^verbatim>\<open>undefined\<close> or \<^verbatim>\<open>null\<close>, whose \<^verbatim>\<open>length\<close> cannot be read; a value without a
  \<^verbatim>\<open>length\<close>, such as a plain object; or an array of messages.
\<close>

datatype 'm messagesValue = Missing | NoLength | Array "'m list"

text \<open>
  The object a processor's \<^verbatim>\<open>postProcess(messages, filePath)\<close> returns, which the lint
  pipeline resolves with: \<^verbatim>\<open>{messages, filePath}\<close>, where the code expects that
  \<^verbatim>\<open>filePath\<close> may be null and asserts on \<^verbatim>\<open>messages\<close>.
\<close>

record 'm TextLintResult =
  filePath :: "path option"
  messages :: "'m messagesValue"

text \<open>
  \<^verbatim>\<open>processor.processor(ext)\<close> returns \<^verbatim>\<open>{preProcess, postProcess}\<close>; the lint pipeline
  asserts that both are functions, so each may be missing (\<open>None\<close>).
\<close>

record ('a, 'm) pre_post =
  preProcess :: "(source \<Rightarrow> path option \<Rightarrow> 'a) option"
  postProcess :: "('m list \<Rightarrow> path option \<Rightarrow> 'm TextLintResult) option"

text \<open>
  A processor instance with the static \<^verbatim>\<open>availableExtensions()\<close> of its class. The
  processors themselves (textlint-plugin-markdown, textlint-plugin-text, plugins) are
  external packages.
\<close>

record ('a, 'm) processor =
  availableExtensions :: "ext list"
  processor :: "ext \<Rightarrow> ('a, 'm) pre_post"

text \<open>
  The result of \<^verbatim>\<open>SourceCodeFixer.applyFixes(sourceCode, messages)\<close>: the fields
  \<^verbatim>\<open>fixed\<close>, \<^verbatim>\<open>output\<close>, \<^verbatim>\<open>messages\<close>, \<^verbatim>\<open>applyingMessages\<close>, \<^verbatim>\<open>remainingMessages\<close>.
\<close>

record 'm applied =
  fixed :: bool
  ap_output :: source
  ap_messages :: "'m list"
  ap_applyingMessages :: "'m list"
  ap_remainingMessages :: "'m list"

text \<open>
  The modules of this repository that the two files import and whose source is not at hand
  are parameters of the model: the two task classes (constructing a task and calling
  \<^verbatim>\<open>process\<close> gives its run), \<^verbatim>\<open>SourceCodeFixer.applyFixes\<close> and \<^verbatim>\<open>findFiles\<close>.
\<close>

record ('c, 'o, 'v, 'a, 'm) modules =
  LinterTask :: "('c, 'o, 'v, 'a) task \<Rightarrow> 'm run"
  FixerTask :: "('c, 'o, 'v, 'a) task \<Rightarrow> 'm run"
  applyFixes :: "'a sourceCode \<Rightarrow> 'm messagesValue \<Rightarrow> 'm applied"
  findFiles :: "path list \<Rightarrow> ext list \<Rightarrow> path list"

text \<open>
  Node's own \<^verbatim>\<open>path.resolve(process.cwd(), p)\<close>, \<^verbatim>\<open>path.extname\<close> and the file store that
  \<^verbatim>\<open>fs.readFileSync(p, "utf-8")\<close> reads (it throws where the store has no file).
\<close>

record node =
  resolve :: "path \<Rightarrow> path"
  extname :: "path \<Rightarrow> string"
  files :: "path \<rightharpoonup> source"

section \<open>TextlintCore\<close>

text \<open>
  The fields of a TextlintCore instance. \<^verbatim>\<open>this.rules\<close> is the list of the object's entries
  in \<^verbatim>\<open>Object.keys\<close> order, which for rule names is the order in which
  \<^verbatim>\<open>setupRules\<close> stored them.
\<close>

record ('c, 'o, 'v, 'a, 'm) core =
  config :: 'c
  rules :: "(string \<times> 'v rule) list"
  rulesConfig :: 'o
  processors :: "('a, 'm) processor list"

text \<open>\<^verbatim>\<open>addProcessor(Processor)\<close>: \<^verbatim>\<open>this.processors.unshift(new Processor(this.config))\<close>.\<close>

definition addProcessor ::
  "('c \<Rightarrow> ('a, 'm) processor) \<Rightarrow> ('c, 'o, 'v, 'a, 'm) core \<Rightarrow> ('c, 'o, 'v, 'a, 'm) core" where
  "addProcessor Processor c = c\<lparr>processors := Processor (config c) # processors c\<rparr>"

text \<open>
  Modelled from the spec: \<^verbatim>\<open>getProcessorMatchExtension\<close> (\<^verbatim>\<open>util/proccesor-helper\<close> is
  absent). Section 4.6: the first processor, in the order of the list, whose declared
  extension set contains the target's extension. Where none matches the value is the falsy
  one that \<^verbatim>\<open>assert(processor, ...)\<close> of \<^verbatim>\<open>_lintByProcessor\<close> tests for.
\<close>

definition getProcessorMatchExtension ::
  "('a, 'm) processor list \<Rightarrow> ext \<Rightarrow> ('a, 'm) processor option" where
  "getProcessorMatchExtension ps targetExt =
     find (\<lambda>p. targetExt \<in> set (availableExtensions p)) ps"

text \<open>
  The \<^verbatim>\<open>complete\<close> handler of \<^verbatim>\<open>_lintByProcessor\<close>. The condition of the assertion is
  \<^verbatim>\<open>result.filePath && result.messages.length >= 0\<close>: an empty path is falsy and fails the
  assertion before \<^verbatim>\<open>messages\<close> is read; otherwise reading \<^verbatim>\<open>length\<close> of \<^verbatim>\<open>undefined\<close>
  throws a TypeError, and a value without a length gives \<^verbatim>\<open>undefined >= 0\<close>, which is
  false. An exception inside the handler leaves the promise without a result; it is
  recorded as the rejection.
\<close>

definition lintComplete ::
  "('m list \<Rightarrow> path option \<Rightarrow> 'm TextLintResult) \<Rightarrow> ext \<Rightarrow> path option \<Rightarrow> 'm list
     \<Rightarrow> 'm TextLintResult promise" where
  "lintComplete post ext fp msgs =
     (let result = post msgs fp;
          result = (if filePath result = None
                    then result\<lparr>filePath := Some (''<Unkown'' @ ext @ ''>'')\<rparr>
                    else result)
      in if (case filePath result of None \<Rightarrow> True | Some p \<Rightarrow> p = [])
         then Rejected (AssertionError ''postProcess should return { messages, filePath } '')
         else (case messages result of
                 Missing \<Rightarrow> Rejected TypeError
               | NoLength \<Rightarrow>
                   Rejected (AssertionError ''postProcess should return { messages, filePath } '')
               | Array ms \<Rightarrow>
                   if 0 \<le> length ms then Resolved result
                   else Rejected
                     (AssertionError ''postProcess should return { messages, filePath } '')))"

text \<open>
  \<^verbatim>\<open>_lintByProcessor(processor, text, ext, filePath)\<close>. The value is the list of the tasks
  constructed, in construction order, with the promise returned.
\<close>

definition lintByProcessor ::
  "('c, 'o, 'v, 'a, 'm) modules \<Rightarrow> ('c, 'o, 'v, 'a, 'm) core \<Rightarrow> ('a, 'm) processor option
     \<Rightarrow> source \<Rightarrow> ext \<Rightarrow> path option
     \<Rightarrow> error + (('c, 'o, 'v, 'a) task list \<times> 'm TextLintResult promise)" where
  "lintByProcessor M c proc text ext fp =
     (case proc of
        None \<Rightarrow> Inl (AssertionError (''processor is not found for '' @ ext))
      | Some p \<Rightarrow>
          (case (preProcess (processor p ext), postProcess (processor p ext)) of
             (Some pre, Some post) \<Rightarrow>
               (let ast = pre text fp;
                    sourceCode = \<lparr>sc_text = text, sc_ast = ast, sc_ext = ext, sc_filePath = fp\<rparr>;
                    task = \<lparr>t_config = config c, t_rules = rules c,
                            t_rulesConfig = rulesConfig c, t_sourceCode = sourceCode\<rparr>;
                    run = LinterTask M task
                in Inr ([task],
                     (case ending run of
                        Failure e \<Rightarrow> Rejected e
                      | Stalled \<Rightarrow> Pending
                      | Complete \<Rightarrow> lintComplete post ext fp (emitted run))))
           | _ \<Rightarrow> Inl (AssertionError ''processor should implement {preProcess, postProcess}'')))"

text \<open>\<^verbatim>\<open>lintText(text, ext)\<close>, \<^verbatim>\<open>lintMarkdown(text)\<close> and \<^verbatim>\<open>lintFile(filePath)\<close>.\<close>

definition lintText ::
  "('c, 'o, 'v, 'a, 'm) modules \<Rightarrow> ('c, 'o, 'v, 'a, 'm) core \<Rightarrow> source \<Rightarrow> ext
     \<Rightarrow> error + (('c, 'o, 'v, 'a) task list \<times> 'm TextLintResult promise)" where
  "lintText M c text ext =
     lintByProcessor M c (getProcessorMatchExtension (processors c) ext) text ext None"

definition lintMarkdown ::
  "('c, 'o, 'v, 'a, 'm) modules \<Rightarrow> ('c, 'o, 'v, 'a, 'm) core \<Rightarrow> source
     \<Rightarrow> error + (('c, 'o, 'v, 'a) task list \<times> 'm TextLintResult promise)" where
  "lintMarkdown M c text =
     lintByProcessor M c (getProcessorMatchExtension (processors c) ''.md'') text ''.md'' None"

definition lintFile ::
  "node \<Rightarrow> ('c, 'o, 'v, 'a, 'm) modules \<Rightarrow> ('c, 'o, 'v, 'a, 'm) core \<Rightarrow> path
     \<Rightarrow> error + (('c, 'o, 'v, 'a) task list \<times> 'm TextLintResult promise)" where
  "lintFile N M c fp =
     (let absoluteFilePath = resolve N fp;
          ext = extname N absoluteFilePath
      in case files N absoluteFilePath of
           None \<Rightarrow> Inl (ENOENT absoluteFilePath)
         | Some text \<Rightarrow>
             lintByProcessor M c (getProcessorMatchExtension (processors c) ext)
               text ext (Some absoluteFilePath))"

section \<open>The fix pipeline\<close>

text \<open>
  The variables of \<^verbatim>\<open>_fixProcess\<close> that its closures update: \<^verbatim>\<open>resultFilePath\<close> and the
  three message arrays. \<open>tasks\<close> lists the FixerTask objects constructed so far, in
  construction order.
\<close>

record ('m, 't) fix_vars =
  resultFilePath :: "path option"
  applyingMessages :: "'m list"
  remainingMessages :: "'m list"
  originalMessages :: "'m list"
  tasks :: "'t list"

text \<open>The object \<^verbatim>\<open>_fixProcess\<close> resolves with.\<close>

record 'm TextLintFixResult =
  fr_filePath :: "path option"
  fr_output :: source
  fr_originalMessages :: "'m list"
  fr_applyingMessages :: "'m list"
  fr_remainingMessages :: "'m list"

text \<open>
  One element of \<^verbatim>\<open>fixerProcessList\<close>: the closure for the rule \<^verbatim>\<open>{ruleName, rule}\<close>,
  applied to \<^verbatim>\<open>sourceText\<close>. A missing \<^verbatim>\<open>preProcess\<close> or \<^verbatim>\<open>postProcess\<close> is a call of
  \<^verbatim>\<open>undefined\<close>; the exception rejects the step.
\<close>

definition fixerProcess ::
  "('c, 'o, 'v, 'a, 'm) modules \<Rightarrow> ('c, 'o, 'v, 'a, 'm) core \<Rightarrow> ('a, 'm) pre_post
     \<Rightarrow> ext \<Rightarrow> path option \<Rightarrow> string \<times> 'v rule \<Rightarrow> source
     \<Rightarrow> ('m, ('c, 'o, 'v, 'a) task) fix_vars
     \<Rightarrow> ('m, ('c, 'o, 'v, 'a) task) fix_vars \<times> source promise" where
  "fixerProcess M c pp ext fp r sourceText vars =
     (case preProcess pp of
        None \<Rightarrow> (vars, Rejected TypeError)
      | Some pre \<Rightarrow>
          (let newSourceCode = \<lparr>sc_text = sourceText, sc_ast = pre sourceText None,
                                sc_ext = ext, sc_filePath = fp\<rparr>;
               task = \<lparr>t_config = config c, t_rules = [(fst r, snd r)],
                       t_rulesConfig = rulesConfig c, t_sourceCode = newSourceCode\<rparr>;
               vars = vars\<lparr>tasks := tasks vars @ [task]\<rparr>;
               run = FixerTask M task
           in case ending run of
                Failure e \<Rightarrow> (vars, Rejected e)
              | Stalled \<Rightarrow> (vars, Pending)
              | Complete \<Rightarrow>
                  (case postProcess pp of
                     None \<Rightarrow> (vars, Rejected TypeError)
                   | Some post \<Rightarrow>
                       (let result = post (emitted run) fp;
                            applied = applyFixes M newSourceCode (messages result);
                            vars = vars\<lparr>resultFilePath := filePath result,
                              applyingMessages :=
                                applyingMessages vars @ ap_applyingMessages applied,
                              remainingMessages :=
                                remainingMessages vars @ ap_remainingMessages applied,
                              originalMessages :=
                                originalMessages vars @ ap_messages applied\<rparr>
                        in (vars, Resolved (if \<not> fixed applied then sourceText
                                            else ap_output applied))))))"

text \<open>
  The callback of the \<^verbatim>\<open>reduce\<close>: \<^verbatim>\<open>promise.then(sourceText => fixerProcess(sourceText))\<close>.
  A rejected or pending promise passes on as it is and the step is not run.
\<close>

definition thenFixerProcess ::
  "'s \<times> source promise \<Rightarrow> (source \<Rightarrow> 's \<Rightarrow> 's \<times> source promise) \<Rightarrow> 's \<times> source promise" where
  "thenFixerProcess acc step =
     (case snd acc of
        Resolved sourceText \<Rightarrow> step sourceText (fst acc)
      | Rejected e \<Rightarrow> (fst acc, Rejected e)
      | Pending \<Rightarrow> (fst acc, Pending))"

text \<open>
  The rules that take part: the entries \<^verbatim>\<open>{ruleName, rule: this.rules[ruleName]}\<close> of
  \<^verbatim>\<open>Object.keys(this.rules)\<close>, in that order, with
  \<^verbatim>\<open>typeof rule.fixer !== "undefined"\<close>.
\<close>

definition fixerRules :: "('c, 'o, 'v, 'a, 'm) core \<Rightarrow> (string \<times> 'v rule) list" where
  "fixerRules c = filter (\<lambda>r. fixer (snd r) \<noteq> None) (rules c)"

text \<open>
  \<^verbatim>\<open>_fixProcess(processor, text, ext, filePath)\<close>. \<^verbatim>\<open>processor.processor(ext)\<close> on a
  processor that is null is a TypeError thrown before any promise exists. The value is the
  list of the tasks constructed with the promise returned.
\<close>

definition fixProcess ::
  "('c, 'o, 'v, 'a, 'm) modules \<Rightarrow> ('c, 'o, 'v, 'a, 'm) core \<Rightarrow> ('a, 'm) processor option
     \<Rightarrow> source \<Rightarrow> ext \<Rightarrow> path option
     \<Rightarrow> error + (('c, 'o, 'v, 'a) task list \<times> 'm TextLintFixResult promise)" where
  "fixProcess M c proc text ext fp =
     (case proc of
        None \<Rightarrow> Inl TypeError
      | Some p \<Rightarrow>
          (let pp = processor p ext;
               vars0 = \<lparr>resultFilePath = fp, applyingMessages = [], remainingMessages = [],
                        originalMessages = [], tasks = []\<rparr>;
               fixerProcessList = map (fixerProcess M c pp ext fp) (fixerRules c);
               promiseTask = foldl thenFixerProcess (vars0, Resolved text) fixerProcessList;
               vars = fst promiseTask
           in Inr (tasks vars,
                then_value (snd promiseTask) (\<lambda>output.
                  \<lparr>fr_filePath = resultFilePath vars, fr_output = output,
                   fr_originalMessages = originalMessages vars,
                   fr_applyingMessages = applyingMessages vars,
                   fr_remainingMessages = remainingMessages vars\<rparr>))))"

text \<open>\<^verbatim>\<open>fixFile(filePath)\<close> and \<^verbatim>\<open>fixText(text, ext)\<close>.\<close>

definition fixFile ::
  "node \<Rightarrow> ('c, 'o, 'v, 'a, 'm) modules \<Rightarrow> ('c, 'o, 'v, 'a, 'm) core \<Rightarrow> path
     \<Rightarrow> error + (('c, 'o, 'v, 'a) task list \<times> 'm TextLintFixResult promise)" where
  "fixFile N M c fp =
     (let absoluteFilePath = resolve N fp;
          ext = extname N absoluteFilePath
      in case files N absoluteFilePath of
           None \<Rightarrow> Inl (ENOENT absoluteFilePath)
         | Some text \<Rightarrow>
             fixProcess M c (getProcessorMatchExtension (processors c) ext) text ext (Some fp))"

definition fixText ::
  "('c, 'o, 'v, 'a, 'm) modules \<Rightarrow> ('c, 'o, 'v, 'a, 'm) core \<Rightarrow> source \<Rightarrow> ext
     \<Rightarrow> error + (('c, 'o, 'v, 'a) task list \<times> 'm TextLintFixResult promise)" where
  "fixText M c text ext =
     fixProcess M c (getProcessorMatchExtension (processors c) ext) text ext None"

section \<open>TextLintEngine\<close>

text \<open>
  \<^verbatim>\<open>Promise.all\<close> of the promise library over the promises of the targets, where
  \<open>settled i\<close> is the instant at which the promise of index \<open>i\<close> settles: rejected with the
  reason of the earliest rejection if there is one, resolved with the values in the order
  of the array once all are resolved, pending otherwise.
\<close>

fun resolvedValues :: "'a promise list \<Rightarrow> 'a list option" where
  "resolvedValues [] = Some []"
| "resolvedValues (Resolved x # ps) = map_option ((#) x) (resolvedValues ps)"
| "resolvedValues (Rejected e # ps) = None"
| "resolvedValues (Pending # ps) = None"

fun rejections :: "nat \<Rightarrow> 'a promise list \<Rightarrow> (nat \<times> error) list" where
  "rejections i [] = []"
| "rejections i (Rejected e # ps) = (i, e) # rejections (Suc i) ps"
| "rejections i (Resolved x # ps) = rejections (Suc i) ps"
| "rejections i (Pending # ps) = rejections (Suc i) ps"

definition earliest :: "(nat \<Rightarrow> nat) \<Rightarrow> nat \<times> error \<Rightarrow> (nat \<times> error) list \<Rightarrow> nat \<times> error" where
  "earliest settled r rs =
     foldl (\<lambda>best x. if settled (fst x) < settled (fst best) then x else best) r rs"

definition promiseAll :: "(nat \<Rightarrow> nat) \<Rightarrow> 'a promise list \<Rightarrow> 'a list promise" where
  "promiseAll settled ps =
     (case rejections 0 ps of
        r # rs \<Rightarrow> Rejected (snd (earliest settled r rs))
      | [] \<Rightarrow> (case resolvedValues ps of Some xs \<Rightarrow> Resolved xs | None \<Rightarrow> Pending))"

text \<open>
  \<^verbatim>\<open>targetFiles.map(file => ...)\<close> with a callback that may throw: the first exception
  leaves the \<^verbatim>\<open>map\<close>, and the files after it are not visited.
\<close>

fun mapThrowing :: "('x \<Rightarrow> error + 'y) \<Rightarrow> 'x list \<Rightarrow> error + 'y list" where
  "mapThrowing f [] = Inr []"
| "mapThrowing f (x # xs) =
     (case f x of
        Inl e \<Rightarrow> Inl e
      | Inr y \<Rightarrow> (case mapThrowing f xs of Inl e \<Rightarrow> Inl e | Inr ys \<Rightarrow> Inr (y # ys)))"

text \<open>
  The fields of a TextLintEngine instance that the operations below read:
  \<^verbatim>\<open>this.textLint\<close> and \<^verbatim>\<open>this.availableExtensions\<close>.
\<close>

record ('c, 'o, 'v, 'a, 'm) engine =
  textLint :: "('c, 'o, 'v, 'a, 'm) core"
  engineExtensions :: "ext list"

text \<open>
  The array \<^verbatim>\<open>results\<close> of \<^verbatim>\<open>executeOnFiles(files)\<close> and of \<^verbatim>\<open>fixFiles(files)\<close>: one
  pipeline invocation for each target file, in the order of \<^verbatim>\<open>targetFiles\<close>.
\<close>

definition lintTargets ::
  "node \<Rightarrow> ('c, 'o, 'v, 'a, 'm) modules \<Rightarrow> ('c, 'o, 'v, 'a, 'm) engine \<Rightarrow> path list
     \<Rightarrow> error + (('c, 'o, 'v, 'a) task list \<times> 'm TextLintResult promise) list" where
  "lintTargets N M e fs =
     (let targetFiles = findFiles M fs (engineExtensions e)
      in mapThrowing (\<lambda>file. lintFile N M (textLint e) file) targetFiles)"

definition fixTargets ::
  "node \<Rightarrow> ('c, 'o, 'v, 'a, 'm) modules \<Rightarrow> ('c, 'o, 'v, 'a, 'm) engine \<Rightarrow> path list
     \<Rightarrow> error + (('c, 'o, 'v, 'a) task list \<times> 'm TextLintFixResult promise) list" where
  "fixTargets N M e fs =
     (let targetFiles = findFiles M fs (engineExtensions e)
      in mapThrowing (\<lambda>file. fixFile N M (textLint e) file) targetFiles)"

text \<open>
  \<^verbatim>\<open>executeOnFiles(files)\<close> and \<^verbatim>\<open>fixFiles(files)\<close>: \<^verbatim>\<open>Promise.all(results)\<close>.
\<close>

definition executeOnFiles ::
  "node \<Rightarrow> ('c, 'o, 'v, 'a, 'm) modules \<Rightarrow> (nat \<Rightarrow> nat) \<Rightarrow> ('c, 'o, 'v, 'a, 'm) engine
     \<Rightarrow> path list \<Rightarrow> error + 'm TextLintResult list promise" where
  "executeOnFiles N M settled e fs =
     (case lintTargets N M e fs of
        Inl err \<Rightarrow> Inl err
      | Inr results \<Rightarrow> Inr (promiseAll settled (map snd results)))"

definition fixFiles ::
  "node \<Rightarrow> ('c, 'o, 'v, 'a, 'm) modules \<Rightarrow> (nat \<Rightarrow> nat) \<Rightarrow> ('c, 'o, 'v, 'a, 'm) engine
     \<Rightarrow> path list \<Rightarrow> error + 'm TextLintFixResult list promise" where
  "fixFiles N M settled e fs =
     (case fixTargets N M e fs of
        Inl err \<Rightarrow> Inl err
      | Inr results \<Rightarrow> Inr (promiseAll settled (map snd results)))"

text \<open>
  \<^verbatim>\<open>ext[0] === "." ? ext : path.extname(ext)\<close>; \<^verbatim>\<open>ext[0]\<close> of the empty string is
  \<^verbatim>\<open>undefined\<close>.
\<close>

definition actualExt :: "node \<Rightarrow> string \<Rightarrow> ext" where
  "actualExt N ext =
     (if (case ext of [] \<Rightarrow> False | ch # _ \<Rightarrow> ch = CHR ''.'') then ext else extname N ext)"

definition extensionError :: error where
  "extensionError = Error (''should specify the extension.'' @ [CHR 0x0A] @ ''ex) .md'')"

text \<open>\<^verbatim>\<open>executeOnText(text, ext)\<close> and the engine's \<^verbatim>\<open>fixText(text, ext)\<close>.\<close>

definition executeOnText ::
  "node \<Rightarrow> ('c, 'o, 'v, 'a, 'm) modules \<Rightarrow> ('c, 'o, 'v, 'a, 'm) engine \<Rightarrow> source \<Rightarrow> string
     \<Rightarrow> error + 'm TextLintResult list promise" where
  "executeOnText N M e text ext =
     (if length (actualExt N ext) = 0 then Inl extensionError
      else case lintText M (textLint e) text (actualExt N ext) of
             Inl err \<Rightarrow> Inl err
           | Inr r \<Rightarrow> Inr (then_value (snd r) (\<lambda>result. [result])))"

definition engineFixText ::
  "node \<Rightarrow> ('c, 'o, 'v, 'a, 'm) modules \<Rightarrow> ('c, 'o, 'v, 'a, 'm) engine \<Rightarrow> source \<Rightarrow> string
     \<Rightarrow> error + 'm TextLintFixResult list promise" where
  "engineFixText N M e text ext =
     (if length (actualExt N ext) = 0 then Inl extensionError
      else case fixText M (textLint e) text (actualExt N ext) of
             Inl err \<Rightarrow> Inl err
           | Inr r \<Rightarrow> Inr (then_value (snd r) (\<lambda>result. [result])))"

section \<open>A concrete instance\<close>

text \<open>
  The theorems below hold for every choice of the parameters. To run the pipelines on
  inputs, the parameters are instantiated here: diagnostics with fix edits, the Fix
  Resolver, tasks that run rule functions on the text, two processors, and Node's
  \<^verbatim>\<open>path.extname\<close>.
\<close>

record fix_edit =
  fx_start :: nat
  fx_end :: nat
  fx_text :: string

record message =
  ruleId :: string
  line :: nat
  column :: nat
  message :: string
  m_fix :: "fix_edit option"

text \<open>
  Modelled from the spec: \<^verbatim>\<open>SourceCodeFixer.applyFixes\<close> (\<^verbatim>\<open>fixer/source-code-fixer\<close> is
  absent). Section 4.3: diagnostics without an edit go to the remaining ones; those with an
  edit are stably sorted by start offset and walked with a cursor; an edit that starts
  before the cursor is rejected, any other is applied and moves the cursor to its end;
  the text after the cursor closes the output; changed means that an edit was applied.
\<close>

definition startOf :: "message \<Rightarrow> nat" where
  "startOf m = (case m_fix m of None \<Rightarrow> 0 | Some e \<Rightarrow> fx_start e)"

fun walkFixes :: "source \<Rightarrow> message list \<Rightarrow> nat \<Rightarrow> source \<Rightarrow> message list \<Rightarrow> message list
    \<Rightarrow> source \<times> message list \<times> message list" where
  "walkFixes text [] cursor buf applying rejected =
     (buf @ drop cursor text, applying, rejected)"
| "walkFixes text (m # ms) cursor buf applying rejected =
     (case m_fix m of
        None \<Rightarrow> walkFixes text ms cursor buf applying (rejected @ [m])
      | Some e \<Rightarrow>
          if fx_start e < cursor then walkFixes text ms cursor buf applying (rejected @ [m])
          else walkFixes text ms (fx_end e)
                 (buf @ take (fx_start e - cursor) (drop cursor text) @ fx_text e)
                 (applying @ [m]) rejected)"

definition resolveFixes :: "'a sourceCode \<Rightarrow> message list \<Rightarrow> message applied" where
  "resolveFixes sourceCode msgs =
     (let withFix = filter (\<lambda>m. m_fix m \<noteq> None) msgs;
          withoutFix = filter (\<lambda>m. m_fix m = None) msgs;
          walked = walkFixes (sc_text sourceCode) (sort_key startOf withFix) 0 [] [] []
      in \<lparr>fixed = (fst (snd walked) \<noteq> []),
          ap_output = fst walked,
          ap_messages = msgs,
          ap_applyingMessages = fst (snd walked),
          ap_remainingMessages = withoutFix @ snd (snd walked)\<rparr>)"

text \<open>
  The processors of the instance return arrays, which go to the resolver as they are; for
  any other value of \<^verbatim>\<open>result.messages\<close> the resolver of the instance is given no
  diagnostic.
\<close>

definition applyResolved :: "'a sourceCode \<Rightarrow> message messagesValue \<Rightarrow> message applied" where
  "applyResolved sourceCode v =
     resolveFixes sourceCode (case v of Array ms \<Rightarrow> ms | Missing \<Rightarrow> [] | NoLength \<Rightarrow> [])"

text \<open>
  A rule function reads the text and reports its diagnostics or throws. A task runs the
  functions of its rule set in order; the first exception ends the run as a failure.
\<close>

type_synonym handler = "source \<Rightarrow> error + message list"

fun runHandlers :: "handler list \<Rightarrow> source \<Rightarrow> message list \<Rightarrow> message run" where
  "runHandlers [] text acc = \<lparr>emitted = acc, ending = Complete\<rparr>"
| "runHandlers (h # hs) text acc =
     (case h text of
        Inl e \<Rightarrow> \<lparr>emitted = acc, ending = Failure e\<rparr>
      | Inr ms \<Rightarrow> runHandlers hs text (acc @ ms))"

definition linterTask :: "('c, 'o, handler, 'a) task \<Rightarrow> message run" where
  "linterTask t = runHandlers (map (\<lambda>r. linter (snd r)) (t_rules t)) (sc_text (t_sourceCode t)) []"

definition fixerTask :: "('c, 'o, handler, 'a) task \<Rightarrow> message run" where
  "fixerTask t =
     runHandlers (map (\<lambda>r. case fixer (snd r) of None \<Rightarrow> linter (snd r) | Some f \<Rightarrow> f) (t_rules t))
       (sc_text (t_sourceCode t)) []"

text \<open>
  Node's \<^verbatim>\<open>path.extname\<close> for POSIX paths: the scan from the end of the path that finds the
  last dot of the last path component.
\<close>

record ext_scan =
  startDot :: "nat option"
  startPart :: nat
  endPos :: "nat option"
  matchedSlash :: bool
  preDotState :: int

fun extnameScan :: "string \<Rightarrow> nat \<Rightarrow> ext_scan \<Rightarrow> ext_scan" where
  "extnameScan p 0 s = s"
| "extnameScan p (Suc i) s =
     (if p ! i = CHR ''/'' then
        (if \<not> matchedSlash s then s\<lparr>startPart := i + 1\<rparr> else extnameScan p i s)
      else
        (let s = (if endPos s = None then s\<lparr>matchedSlash := False, endPos := Some (i + 1)\<rparr>
                  else s);
             s = (if p ! i = CHR ''.'' then
                    (if startDot s = None then s\<lparr>startDot := Some i\<rparr>
                     else if preDotState s \<noteq> 1 then s\<lparr>preDotState := 1\<rparr> else s)
                  else if startDot s \<noteq> None then s\<lparr>preDotState := - 1\<rparr> else s)
         in extnameScan p i s))"

definition posixExtname :: "path \<Rightarrow> string" where
  "posixExtname p =
     (let s = extnameScan p (length p)
                \<lparr>startDot = None, startPart = 0, endPos = None, matchedSlash = True,
                 preDotState = 0\<rparr>
      in case (startDot s, endPos s) of
           (Some d, Some e) \<Rightarrow>
             if preDotState s = 0 \<or> (preDotState s = 1 \<and> d = e - 1 \<and> d = startPart s + 1)
             then [] else take (e - d) (drop d p)
         | _ \<Rightarrow> [])"

text \<open>Rules, processors, modules and a file store to run the pipelines on.\<close>

definition replaceFirst :: "string \<Rightarrow> char \<Rightarrow> string \<Rightarrow> handler" where
  "replaceFirst name ch repl text =
     (case text of
        [] \<Rightarrow> Inr []
      | x # _ \<Rightarrow>
          if x = ch
          then Inr [\<lparr>ruleId = name, line = 1, column = 1, message = ''unexpected first character'',
                     m_fix = Some \<lparr>fx_start = 0, fx_end = 1, fx_text = repl\<rparr>\<rparr>]
          else Inr [])"

definition noA :: "handler rule" where
  "noA = \<lparr>linter = replaceFirst ''no-a'' (CHR ''a'') ''b'',
          fixer = Some (replaceFirst ''no-a'' (CHR ''a'') ''b'')\<rparr>"

definition noC :: "handler rule" where
  "noC = \<lparr>linter = replaceFirst ''no-c'' (CHR ''c'') ''a'',
          fixer = Some (replaceFirst ''no-c'' (CHR ''c'') ''a'')\<rparr>"

definition noQ :: "handler rule" where
  "noQ = \<lparr>linter = (\<lambda>text. if CHR ''q'' \<in> set text
                      then Inr [\<lparr>ruleId = ''no-q'', line = 1, column = 1, message = ''q found'',
                                 m_fix = None\<rparr>]
                      else Inr []),
          fixer = None\<rparr>"

definition broken :: "handler rule" where
  "broken =
     \<lparr>linter = (\<lambda>text. if CHR ''q'' \<in> set text then Inl (Thrown ''boom'') else Inr []),
      fixer = Some (\<lambda>text. if CHR ''q'' \<in> set text then Inl (Thrown ''boom'') else Inr [])\<rparr>"

definition plain :: "ext list \<Rightarrow> (source, message) processor" where
  "plain exts =
     \<lparr>availableExtensions = exts,
      processor = (\<lambda>ext. \<lparr>preProcess = Some (\<lambda>text fp. text),
                          postProcess = Some (\<lambda>msgs fp. \<lparr>filePath = fp, messages = Array msgs\<rparr>)\<rparr>)\<rparr>"

definition exampleModules :: "(unit, unit, handler, source, message) modules" where
  "exampleModules =
     \<lparr>LinterTask = linterTask, FixerTask = fixerTask, applyFixes = applyResolved,
      findFiles = (\<lambda>fs exts. filter (\<lambda>f. posixExtname f \<in> set exts) fs)\<rparr>"

definition exampleNode :: node where
  "exampleNode =
     \<lparr>resolve = (\<lambda>p. ''/w/'' @ p), extname = posixExtname,
      files = map_of [(''/w/a.md'', ''abc''), (''/w/c.txt'', ''cab''), (''/w/q.txt'', ''q'')]\<rparr>"

definition exampleCore :: "(string \<times> handler rule) list \<Rightarrow> (unit, unit, handler, source, message) core" where
  "exampleCore rs =
     \<lparr>config = (), rules = rs, rulesConfig = (),
      processors = [plain [''.md'', ''.markdown''], plain [''.txt'']]\<rparr>"

definition exampleEngine ::
  "(string \<times> handler rule) list \<Rightarrow> (unit, unit, handler, source, message) engine" where
  "exampleEngine rs = \<lparr>textLint = exampleCore rs, engineExtensions = [''.md'', ''.txt'']\<rparr>"

text \<open>
  A processor for \<^verbatim>\<open>.txt\<close> whose \<^verbatim>\<open>postProcess\<close> returns an object with the given file path
  and the given value of \<^verbatim>\<open>messages\<close>, whatever the diagnostics.
\<close>

definition shaped :: "path option \<Rightarrow> message messagesValue \<Rightarrow> (source, message) processor" where
  "shaped fp v =
     \<lparr>availableExtensions = [''.txt''],
      processor = (\<lambda>ext. \<lparr>preProcess = Some (\<lambda>text fp. text),
                          postProcess = Some (\<lambda>msgs p. \<lparr>filePath = fp, messages = v\<rparr>)\<rparr>)\<rparr>"








section \<open>The trace of a fix invocation\<close>

text \<open>
  The text a step of the fix pipeline hands on, read off the task \<open>k\<close> it constructed: the
  output of \<^verbatim>\<open>applyFixes\<close> if it reports \<^verbatim>\<open>fixed\<close>, the source text of the step otherwise.
\<close>

definition nextText ::
  "('c, 'o, 'v, 'a, 'm) modules \<Rightarrow> ('m list \<Rightarrow> path option \<Rightarrow> 'm TextLintResult) \<Rightarrow> path option
     \<Rightarrow> ('c, 'o, 'v, 'a) task \<Rightarrow> source" where
  "nextText M post fp k =
     (let applied = applyFixes M (t_sourceCode k) (messages (post (emitted (FixerTask M k)) fp))
      in if fixed applied then ap_output applied else sc_text (t_sourceCode k))"

text \<open>
  The shape of the tasks \<open>ks\<close> and of the promise \<open>p\<close> that the \<^verbatim>\<open>reduce\<close> over the rules
  \<open>rs\<close> leaves when it starts from the text \<open>t\<close>; the proofs below go through it.
\<close>

fun traced ::
  "('c, 'o, 'v, 'a, 'm) modules \<Rightarrow> ('a, 'm) pre_post \<Rightarrow> path option \<Rightarrow> source
     \<Rightarrow> (string \<times> 'v rule) list \<Rightarrow> ('c, 'o, 'v, 'a) task list \<Rightarrow> source promise \<Rightarrow> bool" where
  "traced M pp fp t [] ks p = (ks = [] \<and> p = Resolved t)"
| "traced M pp fp t (r # rs) [] p = (preProcess pp = None \<and> p = Rejected TypeError)"
| "traced M pp fp t (r # rs) (k # ks) p =
     (t_rules k = [r] \<and> sc_text (t_sourceCode k) = t \<and>
      (case ending (FixerTask M k) of
         Failure e \<Rightarrow> ks = [] \<and> p = Rejected e
       | Stalled \<Rightarrow> ks = [] \<and> p = Pending
       | Complete \<Rightarrow>
           (case postProcess pp of
              None \<Rightarrow> ks = [] \<and> p = Rejected TypeError
            | Some post \<Rightarrow> traced M pp fp (nextText M post fp k) rs ks p)))"

section \<open>Evaluating the instance\<close>

lemmas example_defs =
  exampleCore_def exampleModules_def getProcessorMatchExtension_def plain_def fixerRules_def
  noA_def noQ_def noC_def broken_def fixerTask_def linterTask_def replaceFirst_def
  resolveFixes_def applyResolved_def startOf_def

lemma example_extnames:
  "posixExtname ''q.txt'' = ''.txt''" "posixExtname ''a.md'' = ''.md''"
  "posixExtname ''c.txt'' = ''.txt''" "posixExtname ''x.png'' = ''.png''"
  "posixExtname ''/w/q.txt'' = ''.txt''" "posixExtname ''/w/a.md'' = ''.md''"
  "posixExtname ''/w/c.txt'' = ''.txt''"
  "posixExtname ''txt'' = []" "posixExtname [] = []" "posixExtname ''notes/draft.md'' = ''.md''"
  by code_simp+

section \<open>Processor selection\<close>

lemma getProcessorMatchExtension_first:
  "getProcessorMatchExtension ps e = Some p \<longleftrightarrow>
     (\<exists>i < length ps. ps ! i = p \<and> e \<in> set (availableExtensions p)
        \<and> (\<forall>j < i. e \<notin> set (availableExtensions (ps ! j))))"
  by (auto simp: getProcessorMatchExtension_def find_Some_iff)

lemma getProcessorMatchExtension_none:
  "getProcessorMatchExtension ps e = None \<longleftrightarrow> (\<forall>p \<in> set ps. e \<notin> set (availableExtensions p))"
  by (auto simp: getProcessorMatchExtension_def find_None_iff)

lemma addProcessor_overrides:
  "e \<in> set (availableExtensions (P (config c))) \<Longrightarrow>
     getProcessorMatchExtension (processors (addProcessor P c)) e = Some (P (config c))"
  by (simp add: addProcessor_def getProcessorMatchExtension_def)

lemma lintText_no_processor:
  "getProcessorMatchExtension (processors c) e = None \<Longrightarrow>
     lintText M c text e = Inl (AssertionError (''processor is not found for '' @ e))"
  by (simp add: lintText_def lintByProcessor_def)

lemma fixText_no_processor:
  "getProcessorMatchExtension (processors c) e = None \<Longrightarrow> fixText M c text e = Inl TypeError"
  by (simp add: fixText_def fixProcess_def)

text \<open>
  Claim C3. The processor of a target is the first one of the list, the most recently added
  first, whose extensions contain the target's extension (the lemmas above). With no such
  processor the lint operations fail with the assertion ``processor is not found'' before
  any result exists, but \<^verbatim>\<open>_fixProcess\<close> has no such assertion: \<^verbatim>\<open>fixText\<close> on the
  extension \<^verbatim>\<open>.xyz\<close>, which neither processor of the instance declares, fails with the
  TypeError of \<^verbatim>\<open>processor.processor(ext)\<close> on null.
\<close>

theorem fixText_unknown_extension_TypeError:
  "fixText exampleModules (exampleCore [(''no-a'', noA)]) ''abc'' ''.xyz'' = Inl TypeError
   \<and> lintText exampleModules (exampleCore [(''no-a'', noA)]) ''abc'' ''.xyz'' =
       Inl (AssertionError ''processor is not found for .xyz'')"
  by (simp add: fixText_def lintText_def fixProcess_def lintByProcessor_def exampleCore_def
      getProcessorMatchExtension_def plain_def)

section \<open>The fix pipeline without fixer rules\<close>

lemma fixerRules_none: "\<forall>r\<in>set (rules c). fixer (snd r) = None \<Longrightarrow> fixerRules c = []"
  by (simp add: fixerRules_def filter_empty_conv)

text \<open>
  Claim C10. When no registered rule has a fixer, \<^verbatim>\<open>fixText\<close> and \<^verbatim>\<open>fixFile\<close> construct no task
  and resolve with the input text as output and with empty \<^verbatim>\<open>originalMessages\<close>,
  \<^verbatim>\<open>applyingMessages\<close> and \<^verbatim>\<open>remainingMessages\<close>. They give no result only where the call
  throws before the pipeline starts: no processor for the extension, or no file to read.
\<close>

theorem fix_without_fixer_is_identity:
  assumes "\<forall>r\<in>set (rules c). fixer (snd r) = None"
  shows "fixText M c text ext =
           (case getProcessorMatchExtension (processors c) ext of
              None \<Rightarrow> Inl TypeError
            | Some p \<Rightarrow> Inr ([], Resolved \<lparr>fr_filePath = None, fr_output = text,
                 fr_originalMessages = [], fr_applyingMessages = [],
                 fr_remainingMessages = []\<rparr>))
       \<and> fixFile N M c fp =
           (case files N (resolve N fp) of
              None \<Rightarrow> Inl (ENOENT (resolve N fp))
            | Some content \<Rightarrow>
                (case getProcessorMatchExtension (processors c) (extname N (resolve N fp)) of
                   None \<Rightarrow> Inl TypeError
                 | Some p \<Rightarrow> Inr ([], Resolved \<lparr>fr_filePath = Some fp, fr_output = content,
                      fr_originalMessages = [], fr_applyingMessages = [],
                      fr_remainingMessages = []\<rparr>)))"
  using fixerRules_none [OF assms]
  by (simp add: fixText_def fixFile_def fixProcess_def Let_def split: option.splits)

theorem fix_without_fixer_is_identity_witness:
  "fixer noQ = None
   \<and> fixText exampleModules (exampleCore [(''no-q'', noQ)]) ''quiz'' ''.txt'' =
       Inr ([], Resolved \<lparr>fr_filePath = None, fr_output = ''quiz'',
                 fr_originalMessages = [], fr_applyingMessages = [],
                 fr_remainingMessages = []\<rparr>)
   \<and> fixFile exampleNode exampleModules (exampleCore [(''no-q'', noQ)]) ''q.txt'' =
       Inr ([], Resolved \<lparr>fr_filePath = Some ''q.txt'', fr_output = ''q'',
                 fr_originalMessages = [], fr_applyingMessages = [],
                 fr_remainingMessages = []\<rparr>)"
proof -
  have h: "\<forall>r\<in>set (rules (exampleCore [(''no-q'', noQ)])). fixer (snd r) = None"
    by (simp add: exampleCore_def noQ_def)
  have e: "posixExtname ''/w/q.txt'' = ''.txt''"
    by code_simp
  show ?thesis
    using h e
      fix_without_fixer_is_identity [OF h, of exampleModules "''quiz''" "''.txt''"
        exampleNode "''q.txt''"]
    by (simp add: exampleCore_def exampleNode_def getProcessorMatchExtension_def plain_def)
qed

section \<open>The pass over the fixer rules\<close>

lemma chain_stuck:
  "\<forall>t. p \<noteq> Resolved t \<Longrightarrow> foldl thenFixerProcess (vars, p) steps = (vars, p)"
  by (induction steps) (auto simp: thenFixerProcess_def split: promise.splits)

lemma chain_Cons:
  "foldl thenFixerProcess (vars, Resolved t) (map F (r # rs)) =
     (case snd (F r t vars) of
        Resolved t1 \<Rightarrow> foldl thenFixerProcess (fst (F r t vars), Resolved t1) (map F rs)
      | Rejected e \<Rightarrow> F r t vars
      | Pending \<Rightarrow> F r t vars)"
proof (cases "snd (F r t vars)")
  case (Resolved t1)
  then show ?thesis by (simp add: thenFixerProcess_def) (metis prod.collapse)
next
  case (Rejected e)
  then have "foldl thenFixerProcess (fst (F r t vars), Rejected e) (map F rs) = (fst (F r t vars), Rejected e)"
    by (simp add: chain_stuck)
  with Rejected show ?thesis by (simp add: thenFixerProcess_def) (metis prod.collapse)
next
  case Pending
  then have "foldl thenFixerProcess (fst (F r t vars), Pending) (map F rs) = (fst (F r t vars), Pending)"
    by (simp add: chain_stuck)
  with Pending show ?thesis by (simp add: thenFixerProcess_def) (metis prod.collapse)
qed

lemma fixerProcess_nopre:
  "preProcess pp = None \<Longrightarrow> fixerProcess M c pp ext fp r t vars = (vars, Rejected TypeError)"
  by (simp add: fixerProcess_def)

lemma fixerProcess_pre:
  assumes "preProcess pp = Some pre"
    and "k = \<lparr>t_config = config c, t_rules = [r], t_rulesConfig = rulesConfig c,
               t_sourceCode = \<lparr>sc_text = t, sc_ast = pre t None, sc_ext = ext,
                                sc_filePath = fp\<rparr>\<rparr>"
  shows "tasks (fst (fixerProcess M c pp ext fp r t vars)) = tasks vars @ [k]"
    and "snd (fixerProcess M c pp ext fp r t vars) =
       (case ending (FixerTask M k) of
          Failure e \<Rightarrow> Rejected e
        | Stalled \<Rightarrow> Pending
        | Complete \<Rightarrow> (case postProcess pp of
                         None \<Rightarrow> Rejected TypeError
                       | Some post \<Rightarrow> Resolved (nextText M post fp k)))"
  using assms
  by (simp_all add: fixerProcess_def nextText_def Let_def split: option.splits ending.splits)

lemma fixerProcess_shape:
  "(preProcess pp = None \<and> fixerProcess M c pp ext fp r t vars = (vars, Rejected TypeError)) \<or>
    (\<exists>k. tasks (fst (fixerProcess M c pp ext fp r t vars)) = tasks vars @ [k]
       \<and> t_rules k = [r] \<and> sc_text (t_sourceCode k) = t \<and>
       snd (fixerProcess M c pp ext fp r t vars) =
          (case ending (FixerTask M k) of
              Failure e \<Rightarrow> Rejected e
            | Stalled \<Rightarrow> Pending
            | Complete \<Rightarrow> (case postProcess pp of
                             None \<Rightarrow> Rejected TypeError
                           | Some post \<Rightarrow> Resolved (nextText M post fp k))))"
proof (cases "preProcess pp")
  case None
  then show ?thesis by (simp add: fixerProcess_nopre)
next
  case (Some pre)
  let ?k = "\<lparr>t_config = config c, t_rules = [r], t_rulesConfig = rulesConfig c,
               t_sourceCode = \<lparr>sc_text = t, sc_ast = pre t None, sc_ext = ext,
                                sc_filePath = fp\<rparr>\<rparr>"
  have "tasks (fst (fixerProcess M c pp ext fp r t vars)) = tasks vars @ [?k]"
    by (rule fixerProcess_pre(1) [OF Some refl])
  moreover have "snd (fixerProcess M c pp ext fp r t vars) =
       (case ending (FixerTask M ?k) of
          Failure e \<Rightarrow> Rejected e
        | Stalled \<Rightarrow> Pending
        | Complete \<Rightarrow> (case postProcess pp of
                         None \<Rightarrow> Rejected TypeError
                       | Some post \<Rightarrow> Resolved (nextText M post fp ?k)))"
    by (rule fixerProcess_pre(2) [OF Some refl])
  moreover have "t_rules ?k = [r]" "sc_text (t_sourceCode ?k) = t" by simp_all
  ultimately show ?thesis by blast
qed


lemma chain_traced:
  "\<exists>ks. tasks (fst (foldl thenFixerProcess (vars, Resolved t)
                      (map (fixerProcess M c pp ext fp) rs))) = tasks vars @ ks
      \<and> traced M pp fp t rs ks
           (snd (foldl thenFixerProcess (vars, Resolved t) (map (fixerProcess M c pp ext fp) rs)))"
proof (induction rs arbitrary: vars t)
  case Nil
  show ?case by simp
next
  case (Cons r rs)
  let ?F = "fixerProcess M c pp ext fp"
  from fixerProcess_shape [of pp M c ext fp r t vars]
  show ?case
  proof (elim disjE conjE exE)
    assume "preProcess pp = None" "?F r t vars = (vars, Rejected TypeError)"
    then show ?thesis
      using chain_Cons [of vars t ?F r rs] by simp
  next
    fix k
    assume k: "tasks (fst (?F r t vars)) = tasks vars @ [k]" "t_rules k = [r]"
      "sc_text (t_sourceCode k) = t"
      and q: "snd (?F r t vars) =
          (case ending (FixerTask M k) of
              Failure e \<Rightarrow> Rejected e
            | Stalled \<Rightarrow> Pending
            | Complete \<Rightarrow> (case postProcess pp of
                             None \<Rightarrow> Rejected TypeError
                           | Some post \<Rightarrow> Resolved (nextText M post fp k)))"
    show ?thesis
    proof (cases "snd (?F r t vars)")
      case (Resolved t1)
      with q obtain post where post: "ending (FixerTask M k) = Complete"
        "postProcess pp = Some post" "t1 = nextText M post fp k"
        by (auto split: ending.splits option.splits)
      from Cons.IH [of "fst (?F r t vars)" t1] obtain ks where
        ks: "tasks (fst (foldl thenFixerProcess (fst (?F r t vars), Resolved t1) (map ?F rs)))
               = tasks (fst (?F r t vars)) @ ks"
          "traced M pp fp t1 rs ks
             (snd (foldl thenFixerProcess (fst (?F r t vars), Resolved t1) (map ?F rs)))"
        by blast
      have "foldl thenFixerProcess (vars, Resolved t) (map ?F (r # rs))
              = foldl thenFixerProcess (fst (?F r t vars), Resolved t1) (map ?F rs)"
        using Resolved chain_Cons [of vars t ?F r rs] by simp
      with ks k post show ?thesis
        by (intro exI [of _ "k # ks"]) simp
    next
      case (Rejected e)
      then have "foldl thenFixerProcess (vars, Resolved t) (map ?F (r # rs)) = ?F r t vars"
        using chain_Cons [of vars t ?F r rs] by simp
      with k q Rejected show ?thesis
        by (intro exI [of _ "[k]"]) (auto split: ending.splits option.splits)
    next
      case Pending
      then have "foldl thenFixerProcess (vars, Resolved t) (map ?F (r # rs)) = ?F r t vars"
        using chain_Cons [of vars t ?F r rs] by simp
      with k q Pending show ?thesis
        by (intro exI [of _ "[k]"]) (auto split: ending.splits option.splits)
    qed
  qed
qed


lemma traced_length: "traced M pp fp t rs ks p \<Longrightarrow> length ks \<le> length rs"
  by (induction M pp fp t rs ks p rule: traced.induct)
    (auto split: ending.splits option.splits)

lemma traced_rules:
  "traced M pp fp t rs ks p \<Longrightarrow> map t_rules ks = map (\<lambda>r. [r]) (take (length ks) rs)"
  by (induction M pp fp t rs ks p rule: traced.induct)
    (auto split: ending.splits option.splits)

lemma traced_resolved:
  "traced M pp fp t rs ks (Resolved t') \<Longrightarrow> length ks = length rs"
  by (induction M pp fp t rs ks "Resolved t' :: source promise" rule: traced.induct)
    (auto split: ending.splits option.splits)

lemma traced_failure:
  "traced M pp fp t rs ks p \<Longrightarrow> i < length ks \<Longrightarrow> ending (FixerTask M (ks ! i)) = Failure e
     \<Longrightarrow> p = Rejected e \<and> Suc i = length ks"
proof (induction M pp fp t rs ks p arbitrary: i rule: traced.induct)
  case (3 M pp fp t r rs k ks p)
  show ?case
  proof (cases i)
    case 0
    with "3.prems" show ?thesis by (auto split: ending.splits option.splits)
  next
    case (Suc j)
    with "3.prems" have "ks \<noteq> []" by auto
    with "3.prems" obtain post where c: "ending (FixerTask M k) = Complete"
      "postProcess pp = Some post" "traced M pp fp (nextText M post fp k) rs ks p"
      by (auto split: ending.splits option.splits)
    from "3.IH" [OF c(1) c(2) c(3), of j] "3.prems" Suc show ?thesis by simp
  qed
qed simp_all

lemma traced_first:
  "traced M pp fp t rs ks p \<Longrightarrow> ks \<noteq> [] \<Longrightarrow> sc_text (t_sourceCode (hd ks)) = t"
  by (cases rs; cases ks) auto

lemma traced_next:
  "traced M pp fp t rs ks p \<Longrightarrow> postProcess pp = Some post \<Longrightarrow> Suc i < length ks
     \<Longrightarrow> sc_text (t_sourceCode (ks ! Suc i)) = nextText M post fp (ks ! i)"
proof (induction M pp fp t rs ks p arbitrary: i rule: traced.induct)
  case (3 M pp fp t r rs k ks p)
  from "3.prems" have "ks \<noteq> []" by auto
  with "3.prems" have c: "ending (FixerTask M k) = Complete"
    "traced M pp fp (nextText M post fp k) rs ks p"
    by (auto split: ending.splits option.splits)
  show ?case
  proof (cases i)
    case 0
    with traced_first [OF c(2) \<open>ks \<noteq> []\<close>] \<open>ks \<noteq> []\<close> show ?thesis
      by (simp add: hd_conv_nth)
  next
    case (Suc j)
    with "3.IH" [OF c(1) "3.prems"(2) c(2) "3.prems"(2), of j] "3.prems" show ?thesis by simp
  qed
qed simp_all

lemma traced_output:
  "traced M pp fp t rs ks (Resolved t') \<Longrightarrow> postProcess pp = Some post
     \<Longrightarrow> t' = (if ks = [] then t else nextText M post fp (last ks))"
  by (induction M pp fp t rs ks "Resolved t' :: source promise" rule: traced.induct)
    (auto split: ending.splits option.splits)


lemma fixProcess_traced:
  assumes "fixProcess M c proc text ext fp = Inr (ts, res)"
  shows "\<exists>p q. proc = Some p \<and> traced M (processor p ext) fp text (fixerRules c) ts q
           \<and> (\<forall>r. res = Resolved r \<longrightarrow> q = Resolved (fr_output r))
           \<and> (\<forall>e. q = Rejected e \<longrightarrow> res = Rejected e)"
proof (cases proc)
  case None
  with assms show ?thesis by (simp add: fixProcess_def)
next
  case (Some p)
  define vars0 :: "('e, ('a, 'b, 'c, 'd) task) fix_vars" where
    "vars0 = \<lparr>resultFilePath = fp, applyingMessages = [], remainingMessages = [],
               originalMessages = [], tasks = []\<rparr>"
  define chain where
    "chain = foldl thenFixerProcess (vars0, Resolved text)
               (map (fixerProcess M c (processor p ext) ext fp) (fixerRules c))"
  from chain_traced [of vars0 "text" M c "processor p ext" ext fp "fixerRules c"]
  obtain ks where "tasks (fst chain) = tasks vars0 @ ks"
    "traced M (processor p ext) fp text (fixerRules c) ks (snd chain)"
    unfolding chain_def by blast
  then have tr: "traced M (processor p ext) fp text (fixerRules c) (tasks (fst chain)) (snd chain)"
    by (simp add: vars0_def)
  from assms Some have ts: "ts = tasks (fst chain)"
    and res: "res = then_value (snd chain) (\<lambda>output.
                  \<lparr>fr_filePath = resultFilePath (fst chain), fr_output = output,
                   fr_originalMessages = originalMessages (fst chain),
                   fr_applyingMessages = applyingMessages (fst chain),
                   fr_remainingMessages = remainingMessages (fst chain)\<rparr>)"
    by (simp_all add: fixProcess_def Let_def chain_def vars0_def)
  have "\<forall>r. res = Resolved r \<longrightarrow> snd chain = Resolved (fr_output r)"
    unfolding res by (cases "snd chain") auto
  moreover have "\<forall>e. snd chain = Rejected e \<longrightarrow> res = Rejected e"
    unfolding res by simp
  ultimately show ?thesis
    using tr ts Some by blast
qed

lemma fixText_fixProcess:
  "fixText M c text ext = Inr x \<Longrightarrow> \<exists>proc. fixProcess M c proc text ext None = Inr x"
  by (auto simp: fixText_def)

lemma fixFile_fixProcess:
  "fixFile N M c file = Inr x \<Longrightarrow> \<exists>proc text ext. fixProcess M c proc text ext (Some file) = Inr x"
  by (auto simp: fixFile_def Let_def split: option.splits)

lemma fix_tasks_prefix:
  assumes "fixProcess M c proc text ext fp = Inr (ts, res)"
  shows "length ts \<le> length (fixerRules c)"
    and "map t_rules ts = map (\<lambda>r. [r]) (take (length ts) (fixerRules c))"
    and "res = Resolved r \<Longrightarrow> map t_rules ts = map (\<lambda>r. [r]) (fixerRules c)"
proof -
  from fixProcess_traced [OF assms] obtain p q where "proc = Some p"
    and tr: "traced M (processor p ext) fp text (fixerRules c) ts q"
    and res: "\<forall>r. res = Resolved r \<longrightarrow> q = Resolved (fr_output r)"
    by blast
  show "length ts \<le> length (fixerRules c)" by (rule traced_length [OF tr])
  show pre: "map t_rules ts = map (\<lambda>r. [r]) (take (length ts) (fixerRules c))"
    by (rule traced_rules [OF tr])
  assume "res = Resolved r"
  with res have "q = Resolved (fr_output r)" by simp
  with tr have "length ts = length (fixerRules c)" by (auto dest: traced_resolved)
  with pre show "map t_rules ts = map (\<lambda>r. [r]) (fixerRules c)" by simp
qed

lemma distinct_singletons:
  "distinct (map fst rs) \<Longrightarrow> distinct (map (\<lambda>r. [r]) (take n (filter P rs)))"
proof -
  assume "distinct (map fst rs)"
  then have "distinct rs" by (simp add: distinct_map)
  then have "distinct (take n (filter P rs))" by simp
  then show ?thesis by (simp add: distinct_map inj_on_def)
qed

text \<open>
  Claim C1. In every \<^verbatim>\<open>fixText\<close> or \<^verbatim>\<open>fixFile\<close> invocation the tasks constructed are, in
  order, one single-rule task for each rule of a prefix of the registered rules that have a
  fixer; when the invocation resolves, for all of them: every such rule exactly once, in
  registration order, and no other rule. With distinct rule names no rule has two tasks,
  so a rule is not run again on the text a later rule has patched.
\<close>

theorem fix_single_pass:
  assumes "fixText M c text ext = Inr (ts, res) \<or> fixFile N M c file = Inr (ts, res)"
  shows "length ts \<le> length (filter (\<lambda>r. fixer (snd r) \<noteq> None) (rules c))
    \<and> map t_rules ts =
        map (\<lambda>r. [r]) (take (length ts) (filter (\<lambda>r. fixer (snd r) \<noteq> None) (rules c)))
    \<and> ((\<exists>r. res = Resolved r) \<longrightarrow>
        map t_rules ts = map (\<lambda>r. [r]) (filter (\<lambda>r. fixer (snd r) \<noteq> None) (rules c)))
    \<and> (distinct (map fst (rules c)) \<longrightarrow> distinct (map t_rules ts))"
proof -
  from assms obtain proc text' ext' fp where
    fp: "fixProcess M c proc text' ext' fp = Inr (ts, res)"
    by (auto dest: fixText_fixProcess fixFile_fixProcess)
  note pre = fix_tasks_prefix [OF fp]
  have "distinct (map fst (rules c)) \<Longrightarrow> distinct (map t_rules ts)"
    using pre(2) by (simp add: fixerRules_def distinct_singletons)
  with pre show ?thesis
    by (auto simp: fixerRules_def)
qed


theorem fix_single_pass_witness:
  "(case fixText exampleModules (exampleCore [(''no-a'', noA), (''no-q'', noQ), (''no-c'', noC)])
           ''cq'' ''.txt'' of
      Inr (ts, Resolved r) \<Rightarrow>
        map t_rules ts = [[(''no-a'', noA)], [(''no-c'', noC)]]
        \<and> map (\<lambda>k. sc_text (t_sourceCode k)) ts = [''cq'', ''cq'']
        \<and> fr_output r = ''aq''
        \<and> linter noA (fr_output r) \<noteq> Inr []
    | _ \<Rightarrow> False)
   \<and> (case fixFile exampleNode exampleModules
              (exampleCore [(''no-a'', noA), (''no-q'', noQ), (''no-c'', noC)]) ''c.txt'' of
        Inr (ts, Resolved r) \<Rightarrow>
          map t_rules ts = [[(''no-a'', noA)], [(''no-c'', noC)]]
          \<and> fr_output r = ''aab''
      | _ \<Rightarrow> False)"
proof -
  let ?c = "exampleCore [(''no-a'', noA), (''no-q'', noQ), (''no-c'', noC)]"
  let ?k = "\<lambda>rs t fp. \<lparr>t_config = (), t_rules = rs, t_rulesConfig = (),
               t_sourceCode = \<lparr>sc_text = t, sc_ast = t, sc_ext = ''.txt'', sc_filePath = fp\<rparr>\<rparr>"
  let ?ts = "[?k [(''no-a'', noA)] ''cq'' None, ?k [(''no-c'', noC)] ''cq'' None]"
  let ?ts' = "[?k [(''no-a'', noA)] ''cab'' (Some ''c.txt''),
               ?k [(''no-c'', noC)] ''cab'' (Some ''c.txt'')]"
  let ?m = "\<lparr>ruleId = ''no-c'', line = 1, column = 1, message = ''unexpected first character'',
             m_fix = Some \<lparr>fx_start = 0, fx_end = 1, fx_text = ''a''\<rparr>\<rparr>"
  let ?r = "\<lparr>fr_filePath = None, fr_output = ''aq'', fr_originalMessages = [?m],
             fr_applyingMessages = [?m], fr_remainingMessages = []\<rparr>"
  let ?r' = "\<lparr>fr_filePath = Some ''c.txt'', fr_output = ''aab'', fr_originalMessages = [?m],
             fr_applyingMessages = [?m], fr_remainingMessages = []\<rparr>"
  have run: "fixText exampleModules ?c ''cq'' ''.txt'' = Inr (?ts, Resolved ?r)"
    by (simp add: fixText_def fixProcess_def fixerProcess_def thenFixerProcess_def
        example_defs Let_def)
  have run': "fixFile exampleNode exampleModules ?c ''c.txt'' = Inr (?ts', Resolved ?r')"
    by (simp add: fixFile_def fixProcess_def fixerProcess_def thenFixerProcess_def
        exampleNode_def example_extnames example_defs Let_def)
  have all: "map t_rules ?ts = map (\<lambda>r. [r]) (filter (\<lambda>r. fixer (snd r) \<noteq> None) (rules ?c))"
    using fix_single_pass [OF disjI1 [OF run]] by blast
  have all': "map t_rules ?ts' = map (\<lambda>r. [r]) (filter (\<lambda>r. fixer (snd r) \<noteq> None) (rules ?c))"
    using fix_single_pass [OF disjI2 [OF run']] by blast
  from all all' run run' show ?thesis
    by (simp add: noA_def replaceFirst_def)
qed

section \<open>Text handed from step to step\<close>

text \<open>
  Claim C2. The first step of a fix invocation reads the input text. Each further step
  reads what the step before it handed on: the output of the Fix Resolver
  (\<^verbatim>\<open>applyFixes\<close>) if that reported \<^verbatim>\<open>fixed\<close>, and otherwise exactly the source text
  the step before had itself received. The output of a resolved invocation is what the
  last step handed on in the same way.
\<close>

theorem fix_step_hands_on_text:
  assumes "fixProcess M c (Some p) text ext fp = Inr (ts, res)"
    and "postProcess (processor p ext) = Some post"
  shows "(ts \<noteq> [] \<longrightarrow> sc_text (t_sourceCode (hd ts)) = text)
    \<and> (\<forall>i. Suc i < length ts \<longrightarrow>
          sc_text (t_sourceCode (ts ! Suc i)) =
            (let applied = applyFixes M (t_sourceCode (ts ! i))
                             (messages (post (emitted (FixerTask M (ts ! i))) fp))
             in if fixed applied then ap_output applied else sc_text (t_sourceCode (ts ! i))))
    \<and> (\<forall>r. res = Resolved r \<longrightarrow>
          fr_output r =
            (if ts = [] then text
             else let applied = applyFixes M (t_sourceCode (last ts))
                                  (messages (post (emitted (FixerTask M (last ts))) fp))
                  in if fixed applied then ap_output applied
                     else sc_text (t_sourceCode (last ts))))"
proof -
  from fixProcess_traced [OF assms(1)] obtain q where
    tr: "traced M (processor p ext) fp text (fixerRules c) ts q"
    and res: "\<forall>r. res = Resolved r \<longrightarrow> q = Resolved (fr_output r)"
    by auto
  have first: "ts \<noteq> [] \<longrightarrow> sc_text (t_sourceCode (hd ts)) = text"
    using traced_first [OF tr] by simp
  have "next": "\<forall>i. Suc i < length ts \<longrightarrow>
      sc_text (t_sourceCode (ts ! Suc i)) = nextText M post fp (ts ! i)"
    using traced_next [OF tr assms(2)] by simp
  have out: "\<forall>r. res = Resolved r \<longrightarrow>
      fr_output r = (if ts = [] then text else nextText M post fp (last ts))"
  proof (intro allI impI)
    fix r assume "res = Resolved r"
    with res have "q = Resolved (fr_output r)" by simp
    with tr have "traced M (processor p ext) fp text (fixerRules c) ts (Resolved (fr_output r))"
      by simp
    from traced_output [OF this assms(2)]
    show "fr_output r = (if ts = [] then text else nextText M post fp (last ts))" .
  qed
  from first "next" out show ?thesis
    unfolding nextText_def by blast
qed


theorem fix_step_hands_on_text_witness:
  "(case fixProcess exampleModules
           (exampleCore [(''no-a'', noA), (''no-c'', noC), (''no-a-again'', noA)])
           (Some (plain [''.txt''])) ''cq'' ''.txt'' None of
      Inr (ts, Resolved r) \<Rightarrow>
        map (\<lambda>k. sc_text (t_sourceCode k)) ts = [''cq'', ''cq'', ''aq'']
        \<and> map (\<lambda>k. fixed (resolveFixes (t_sourceCode k) (emitted (fixerTask k)))) ts
            = [False, True, True]
        \<and> fr_output r = ''bq''
    | _ \<Rightarrow> False)"
proof -
  let ?c = "exampleCore [(''no-a'', noA), (''no-c'', noC), (''no-a-again'', noA)]"
  let ?sc = "\<lambda>t. \<lparr>sc_text = t, sc_ast = t, sc_ext = ''.txt'', sc_filePath = None\<rparr>"
  let ?ts = "[\<lparr>t_config = (), t_rules = [(''no-a'', noA)], t_rulesConfig = (),
               t_sourceCode = ?sc ''cq''\<rparr>,
              \<lparr>t_config = (), t_rules = [(''no-c'', noC)], t_rulesConfig = (),
               t_sourceCode = ?sc ''cq''\<rparr>,
              \<lparr>t_config = (), t_rules = [(''no-a-again'', noA)], t_rulesConfig = (),
               t_sourceCode = ?sc ''aq''\<rparr>]"
  let ?m = "\<lambda>name repl. \<lparr>ruleId = name, line = 1, column = 1,
             message = ''unexpected first character'',
             m_fix = Some \<lparr>fx_start = 0, fx_end = 1, fx_text = repl\<rparr>\<rparr>"
  let ?r = "\<lparr>fr_filePath = None, fr_output = ''bq'',
             fr_originalMessages = [?m ''no-c'' ''a'', ?m ''no-a'' ''b''],
             fr_applyingMessages = [?m ''no-c'' ''a'', ?m ''no-a'' ''b''],
             fr_remainingMessages = []\<rparr>"
  let ?post = "\<lambda>msgs fp. \<lparr>filePath = fp, messages = Array msgs\<rparr>"
  have run: "fixProcess exampleModules ?c (Some (plain [''.txt''])) ''cq'' ''.txt'' None
               = Inr (?ts, Resolved ?r)"
    by (simp add: fixProcess_def fixerProcess_def thenFixerProcess_def example_defs Let_def)
  have post: "postProcess (processor (plain [''.txt'']) ''.txt'') = Some ?post"
    by (simp add: plain_def)
  have "fr_output ?r =
          (let applied = applyFixes exampleModules (t_sourceCode (last ?ts))
                           (messages (?post (emitted (FixerTask exampleModules (last ?ts))) None))
           in if fixed applied then ap_output applied else sc_text (t_sourceCode (last ?ts)))"
    using fix_step_hands_on_text [OF run post] by simp
  with run show ?thesis
    by (simp add: example_defs Let_def)
qed

section \<open>Tasks of the two pipelines and their failures\<close>

lemma lintByProcessor_task:
  assumes "lintByProcessor M c proc text ext fp = Inr (ts, res)"
  shows "\<exists>p pre post k. proc = Some p \<and> preProcess (processor p ext) = Some pre
      \<and> postProcess (processor p ext) = Some post \<and> ts = [k]
      \<and> k = \<lparr>t_config = config c, t_rules = rules c, t_rulesConfig = rulesConfig c,
             t_sourceCode = \<lparr>sc_text = text, sc_ast = pre text fp, sc_ext = ext,
                             sc_filePath = fp\<rparr>\<rparr>
      \<and> res = (case ending (LinterTask M k) of
                 Failure e \<Rightarrow> Rejected e
               | Stalled \<Rightarrow> Pending
               | Complete \<Rightarrow> lintComplete post ext fp (emitted (LinterTask M k)))"
  using assms
  by (auto simp: lintByProcessor_def Let_def split: option.splits)

lemma mapThrowing_Inr:
  "mapThrowing f xs = Inr ys \<Longrightarrow>
     length ys = length xs \<and> (\<forall>i < length xs. f (xs ! i) = Inr (ys ! i))"
proof (induction xs arbitrary: ys)
  case Nil
  then show ?case by simp
next
  case (Cons x xs)
  from Cons.prems obtain y ys' where y: "f x = Inr y" "mapThrowing f xs = Inr ys'" "ys = y # ys'"
    by (auto split: sum.splits)
  from Cons.IH [OF y(2)] y show ?case
    by (auto simp: nth_Cons')
qed

text \<open>
  Claim C5. When the task of a lint invocation fails with an error, the promise of the
  invocation is rejected with that error, so no result exists, and the invocation has
  constructed that one task only. When a task of a fix invocation fails, the promise is
  rejected with that error and the failing task is the last one constructed: nothing is
  run again or after it. In the arrays of \<^verbatim>\<open>executeOnFiles\<close> and \<^verbatim>\<open>fixFiles\<close> the entry of
  every target is what \<^verbatim>\<open>lintFile\<close> or \<^verbatim>\<open>fixFile\<close> gives for that target alone, whatever
  happens to the other targets.
\<close>

theorem task_failure_rejects_its_target:
  "(lintByProcessor M c proc src ext fp = Inr (ts, res) \<longrightarrow>
      (\<exists>k. ts = [k] \<and> (\<forall>e. ending (LinterTask M k) = Failure e \<longrightarrow> res = Rejected e)))
   \<and> (fixProcess M c proc src ext fp = Inr (ts', res') \<longrightarrow>
      (\<forall>i e. i < length ts' \<and> ending (FixerTask M (ts' ! i)) = Failure e \<longrightarrow>
         res' = Rejected e \<and> Suc i = length ts'))
   \<and> (lintTargets N M E fs = Inr rs \<longrightarrow>
      length rs = length (findFiles M fs (engineExtensions E))
      \<and> (\<forall>j < length rs.
           lintFile N M (textLint E) (findFiles M fs (engineExtensions E) ! j) = Inr (rs ! j)))
   \<and> (fixTargets N M E fs = Inr rs' \<longrightarrow>
      length rs' = length (findFiles M fs (engineExtensions E))
      \<and> (\<forall>j < length rs'.
           fixFile N M (textLint E) (findFiles M fs (engineExtensions E) ! j) = Inr (rs' ! j)))"
proof (intro conjI impI)
  assume "lintByProcessor M c proc src ext fp = Inr (ts, res)"
  from lintByProcessor_task [OF this]
  show "\<exists>k. ts = [k] \<and> (\<forall>e. ending (LinterTask M k) = Failure e \<longrightarrow> res = Rejected e)"
    by auto
next
  assume run: "fixProcess M c proc src ext fp = Inr (ts', res')"
  from fixProcess_traced [OF run] obtain p q where "proc = Some p"
    and tr: "traced M (processor p ext) fp src (fixerRules c) ts' q"
    and rej: "\<forall>e. q = Rejected e \<longrightarrow> res' = Rejected e"
    by blast
  show "\<forall>i e. i < length ts' \<and> ending (FixerTask M (ts' ! i)) = Failure e \<longrightarrow>
         res' = Rejected e \<and> Suc i = length ts'"
    using traced_failure [OF tr] rej by blast
next
  assume "lintTargets N M E fs = Inr rs"
  then have "mapThrowing (\<lambda>file. lintFile N M (textLint E) file)
               (findFiles M fs (engineExtensions E)) = Inr rs"
    by (simp add: lintTargets_def)
  from mapThrowing_Inr [OF this]
  show "length rs = length (findFiles M fs (engineExtensions E))"
    and "\<forall>j < length rs.
           lintFile N M (textLint E) (findFiles M fs (engineExtensions E) ! j) = Inr (rs ! j)"
    by simp_all
next
  assume "fixTargets N M E fs = Inr rs'"
  then have "mapThrowing (\<lambda>file. fixFile N M (textLint E) file)
               (findFiles M fs (engineExtensions E)) = Inr rs'"
    by (simp add: fixTargets_def)
  from mapThrowing_Inr [OF this]
  show "length rs' = length (findFiles M fs (engineExtensions E))"
    and "\<forall>j < length rs'.
           fixFile N M (textLint E) (findFiles M fs (engineExtensions E) ! j) = Inr (rs' ! j)"
    by simp_all
qed

text \<open>
  Claim C6. Every task that a fix invocation constructs carries a rule set of exactly one
  rule, a registered rule with a fixer; the one task of a lint invocation carries the whole
  registered rule set.
\<close>

theorem task_rule_sets:
  "(fixProcess M c proc src ext fp = Inr (ts, res) \<longrightarrow>
      (\<forall>k \<in> set ts. \<exists>r \<in> set (rules c). fixer (snd r) \<noteq> None \<and> t_rules k = [r]))
   \<and> (lintByProcessor M c proc src ext fp = Inr (ts', res') \<longrightarrow>
      (\<exists>k. ts' = [k] \<and> t_rules k = rules c))"
proof (intro conjI impI)
  assume run: "fixProcess M c proc src ext fp = Inr (ts, res)"
  have pre: "map t_rules ts = map (\<lambda>r. [r]) (take (length ts) (fixerRules c))"
    by (rule fix_tasks_prefix(2) [OF run])
  show "\<forall>k \<in> set ts. \<exists>r \<in> set (rules c). fixer (snd r) \<noteq> None \<and> t_rules k = [r]"
  proof
    fix k assume "k \<in> set ts"
    then have "t_rules k \<in> set (map t_rules ts)" by simp
    with pre obtain r where r: "r \<in> set (take (length ts) (fixerRules c))" "t_rules k = [r]"
      by auto
    from r(1) have "r \<in> set (fixerRules c)" by (rule in_set_takeD)
    then have "r \<in> set (rules c)" "fixer (snd r) \<noteq> None"
      by (simp_all add: fixerRules_def)
    with r(2) show "\<exists>r \<in> set (rules c). fixer (snd r) \<noteq> None \<and> t_rules k = [r]" by blast
  qed
next
  assume "lintByProcessor M c proc src ext fp = Inr (ts', res')"
  from lintByProcessor_task [OF this] show "\<exists>k. ts' = [k] \<and> t_rules k = rules c"
    by auto
qed


theorem task_failure_rejects_its_target_witness:
  "(case lintText exampleModules (exampleCore [(''no-a'', noA), (''broken'', broken)])
           ''q'' ''.txt'' of
      Inr (ts, res) \<Rightarrow> length ts = 1 \<and> res = Rejected (Thrown ''boom'')
    | Inl err \<Rightarrow> False)
   \<and> (case fixText exampleModules
              (exampleCore [(''no-c'', noC), (''broken'', broken), (''no-a'', noA)])
              ''cq'' ''.txt'' of
        Inr (ts, res) \<Rightarrow>
          map (\<lambda>k. (map fst (t_rules k), sc_text (t_sourceCode k))) ts
            = [([''no-c''], ''cq''), ([''broken''], ''aq'')]
          \<and> res = Rejected (Thrown ''boom'')
      | Inl err \<Rightarrow> False)
   \<and> (case lintTargets exampleNode exampleModules
              (exampleEngine [(''no-a'', noA), (''broken'', broken)])
              [''q.txt'', ''x.png'', ''a.md''] of
        Inr rs \<Rightarrow>
          map snd rs =
            [Rejected (Thrown ''boom''),
             Resolved \<lparr>filePath = Some ''/w/a.md'',
               messages = Array [\<lparr>ruleId = ''no-a'', line = 1, column = 1,
                 message = ''unexpected first character'',
                 m_fix = Some \<lparr>fx_start = 0, fx_end = 1, fx_text = ''b''\<rparr>\<rparr>]\<rparr>]
      | Inl err \<Rightarrow> False)
   \<and> (case fixTargets exampleNode exampleModules
              (exampleEngine [(''no-c'', noC), (''broken'', broken)]) [''q.txt'', ''c.txt''] of
        Inr rs \<Rightarrow>
          map snd rs =
            [Rejected (Thrown ''boom''),
             Resolved \<lparr>fr_filePath = Some ''c.txt'', fr_output = ''aab'',
               fr_originalMessages = [\<lparr>ruleId = ''no-c'', line = 1, column = 1,
                 message = ''unexpected first character'',
                 m_fix = Some \<lparr>fx_start = 0, fx_end = 1, fx_text = ''a''\<rparr>\<rparr>],
               fr_applyingMessages = [\<lparr>ruleId = ''no-c'', line = 1, column = 1,
                 message = ''unexpected first character'',
                 m_fix = Some \<lparr>fx_start = 0, fx_end = 1, fx_text = ''a''\<rparr>\<rparr>],
               fr_remainingMessages = []\<rparr>]
      | Inl err \<Rightarrow> False)"
proof -
  let ?ab = "[(''no-a'', noA), (''broken'', broken)]"
  let ?cb = "[(''no-c'', noC), (''broken'', broken)]"
  let ?c = "exampleCore ?ab"
  let ?c' = "exampleCore [(''no-c'', noC), (''broken'', broken), (''no-a'', noA)]"
  let ?txt = "Some (plain [''.txt''])"
  let ?k = "\<lambda>rs t e fp. \<lparr>t_config = (), t_rules = rs, t_rulesConfig = (),
               t_sourceCode = \<lparr>sc_text = t, sc_ast = t, sc_ext = e, sc_filePath = fp\<rparr>\<rparr>"
  let ?ma = "\<lparr>ruleId = ''no-a'', line = 1, column = 1, message = ''unexpected first character'',
              m_fix = Some \<lparr>fx_start = 0, fx_end = 1, fx_text = ''b''\<rparr>\<rparr>"
  let ?mc = "\<lparr>ruleId = ''no-c'', line = 1, column = 1, message = ''unexpected first character'',
              m_fix = Some \<lparr>fx_start = 0, fx_end = 1, fx_text = ''a''\<rparr>\<rparr>"
  let ?lts = "[?k ?ab ''q'' ''.txt'' None]"
  let ?fts = "[?k [(''no-c'', noC)] ''cq'' ''.txt'' None, ?k [(''broken'', broken)] ''aq'' ''.txt'' None]"
  let ?lrs = "[([?k ?ab ''q'' ''.txt'' (Some ''/w/q.txt'')], Rejected (Thrown ''boom'')),
               ([?k ?ab ''abc'' ''.md'' (Some ''/w/a.md'')],
                Resolved \<lparr>filePath = Some ''/w/a.md'', messages = Array [?ma]\<rparr>)]"
  let ?frs = "[([?k [(''no-c'', noC)] ''q'' ''.txt'' (Some ''q.txt''),
                 ?k [(''broken'', broken)] ''q'' ''.txt'' (Some ''q.txt'')],
                Rejected (Thrown ''boom'')),
               ([?k [(''no-c'', noC)] ''cab'' ''.txt'' (Some ''c.txt''),
                 ?k [(''broken'', broken)] ''aab'' ''.txt'' (Some ''c.txt'')],
                Resolved \<lparr>fr_filePath = Some ''c.txt'', fr_output = ''aab'',
                  fr_originalMessages = [?mc], fr_applyingMessages = [?mc],
                  fr_remainingMessages = []\<rparr>)]"
  have lint: "lintByProcessor exampleModules ?c ?txt ''q'' ''.txt'' None
      = Inr (?lts, Rejected (Thrown ''boom''))"
    by (simp add: lintByProcessor_def example_defs Let_def)
  have fixrun: "fixProcess exampleModules ?c' ?txt ''cq'' ''.txt'' None
      = Inr (?fts, Rejected (Thrown ''boom''))"
    by (simp add: fixProcess_def fixerProcess_def thenFixerProcess_def example_defs Let_def)
  have ltargets: "lintTargets exampleNode exampleModules (exampleEngine ?ab)
      [''q.txt'', ''x.png'', ''a.md''] = Inr ?lrs"
    by (simp add: lintTargets_def lintFile_def lintByProcessor_def lintComplete_def
        exampleEngine_def exampleNode_def example_extnames example_defs Let_def)
  have ftargets: "fixTargets exampleNode exampleModules (exampleEngine ?cb)
      [''q.txt'', ''c.txt''] = Inr ?frs"
    by (simp add: fixTargets_def fixFile_def fixProcess_def fixerProcess_def
        thenFixerProcess_def exampleEngine_def exampleNode_def example_extnames example_defs
        Let_def)
  have sel: "getProcessorMatchExtension (processors ?c) ''.txt'' = ?txt"
    "getProcessorMatchExtension (processors ?c') ''.txt'' = ?txt"
    by (simp_all add: example_defs)
  note inst = task_failure_rejects_its_target
    [where M = exampleModules and N = exampleNode and proc = ?txt and ext = "''.txt''"
       and fp = None]
  note l = inst [THEN conjunct1, THEN mp, OF lint]
  note f = inst [THEN conjunct2, THEN conjunct1, THEN mp, OF fixrun]
  note lt = inst [THEN conjunct2, THEN conjunct2, THEN conjunct1, THEN mp, OF ltargets,
          THEN conjunct1]
  note ft = inst [THEN conjunct2, THEN conjunct2, THEN conjunct2, THEN mp, OF ftargets,
          THEN conjunct1]
  have broke: "ending (FixerTask exampleModules (?fts ! 1)) = Failure (Thrown ''boom'')"
    by (simp add: example_defs)
  from f [rule_format, of 1 "Thrown ''boom''"] broke have last: "Suc 1 = length ?fts"
    by simp
  from l have one: "length ?lts = 1" by simp
  from one last lt ft lint fixrun ltargets ftargets show ?thesis
    by (simp add: lintText_def fixText_def sel)
qed

theorem task_rule_sets_witness:
  "(case fixText exampleModules (exampleCore [(''no-a'', noA), (''no-q'', noQ), (''no-c'', noC)])
           ''cq'' ''.txt'' of
      Inr (ts, res) \<Rightarrow> map (\<lambda>k. map fst (t_rules k)) ts = [[''no-a''], [''no-c'']]
    | Inl err \<Rightarrow> False)
   \<and> (case lintText exampleModules
              (exampleCore [(''no-a'', noA), (''no-q'', noQ), (''no-c'', noC)]) ''cq'' ''.txt'' of
        Inr (ts, res) \<Rightarrow> map (\<lambda>k. map fst (t_rules k)) ts = [[''no-a'', ''no-q'', ''no-c'']]
      | Inl err \<Rightarrow> False)"
proof -
  let ?c = "exampleCore [(''no-a'', noA), (''no-q'', noQ), (''no-c'', noC)]"
  let ?txt = "Some (plain [''.txt''])"
  let ?k = "\<lambda>rs. \<lparr>t_config = (), t_rules = rs, t_rulesConfig = (),
               t_sourceCode = \<lparr>sc_text = ''cq'', sc_ast = ''cq'', sc_ext = ''.txt'',
                                sc_filePath = None\<rparr>\<rparr>"
  let ?mc = "\<lparr>ruleId = ''no-c'', line = 1, column = 1, message = ''unexpected first character'',
              m_fix = Some \<lparr>fx_start = 0, fx_end = 1, fx_text = ''a''\<rparr>\<rparr>"
  let ?mq = "\<lparr>ruleId = ''no-q'', line = 1, column = 1, message = ''q found'', m_fix = None\<rparr>"
  let ?r = "\<lparr>fr_filePath = None, fr_output = ''aq'', fr_originalMessages = [?mc],
             fr_applyingMessages = [?mc], fr_remainingMessages = []\<rparr>"
  let ?fts = "[?k [(''no-a'', noA)], ?k [(''no-c'', noC)]]"
  let ?lts = "[?k [(''no-a'', noA), (''no-q'', noQ), (''no-c'', noC)]]"
  have fixrun: "fixProcess exampleModules ?c ?txt ''cq'' ''.txt'' None = Inr (?fts, Resolved ?r)"
    by (simp add: fixProcess_def fixerProcess_def thenFixerProcess_def example_defs Let_def)
  have lint: "lintByProcessor exampleModules ?c ?txt ''cq'' ''.txt'' None
      = Inr (?lts, Resolved \<lparr>filePath = Some ''<Unkown.txt>'', messages = Array [?mq, ?mc]\<rparr>)"
    by (simp add: lintByProcessor_def lintComplete_def example_defs Let_def)
  have sel: "getProcessorMatchExtension (processors ?c) ''.txt'' = ?txt"
    by (simp add: example_defs)
  note inst = task_rule_sets
    [where M = exampleModules and c = ?c and proc = ?txt and src = "''cq''" and ext = "''.txt''"
       and fp = None]
  note f = inst [THEN conjunct1, THEN mp, OF fixrun]
  note l = inst [THEN conjunct2, THEN mp, OF lint]
  from f have "\<forall>k \<in> set ?fts. length (t_rules k) = 1"
    by fastforce
  moreover from l have "map t_rules ?lts = [rules ?c]"
    by auto
  ultimately show ?thesis
    using lint fixrun sel
    by (simp add: lintText_def fixText_def exampleCore_def)
qed

section \<open>The shape of a lint result\<close>

lemma lintComplete_cases:
  "lintComplete post ext fp msgs =
     (if filePath (post msgs fp) = Some []
      then Rejected (AssertionError ''postProcess should return { messages, filePath } '')
      else case messages (post msgs fp) of
             Missing \<Rightarrow> Rejected TypeError
           | NoLength \<Rightarrow>
               Rejected (AssertionError ''postProcess should return { messages, filePath } '')
           | Array ms \<Rightarrow>
               Resolved (case filePath (post msgs fp) of
                           None \<Rightarrow> (post msgs fp)\<lparr>filePath := Some (''<Unkown'' @ ext @ ''>'')\<rparr>
                         | Some path \<Rightarrow> post msgs fp))"
  by (simp add: lintComplete_def Let_def split: option.splits messagesValue.splits)

lemma lintComplete_Resolved:
  "lintComplete post ext fp msgs = Resolved r \<Longrightarrow>
     \<exists>path ms. filePath r = Some path \<and> path \<noteq> [] \<and> messages r = Array ms"
  by (auto simp: lintComplete_cases split: option.splits if_splits messagesValue.splits)

text \<open>
  What holds of the claim: every result a lint invocation resolves with has a file path, a
  non-empty one, and an array of messages; when \<^verbatim>\<open>postProcess\<close> returns no file path the
  result carries the placeholder made of the extension, spelled \<^verbatim>\<open><Unkown\<close> followed by the
  extension and \<^verbatim>\<open>>\<close> in the code; an empty path and a \<^verbatim>\<open>messages\<close> value without a length
  fail the assertion.
\<close>

lemma lint_result_shape:
  assumes "lintByProcessor M c proc src ext fp = Inr (ts, res)"
  shows "(\<forall>r. res = Resolved r \<longrightarrow>
            (\<exists>path ms. filePath r = Some path \<and> path \<noteq> [] \<and> messages r = Array ms))
    \<and> (\<exists>p post k. proc = Some p \<and> postProcess (processor p ext) = Some post \<and> ts = [k]
         \<and> (ending (LinterTask M k) = Complete \<longrightarrow>
               res = lintComplete post ext fp (emitted (LinterTask M k))))"
proof -
  from lintByProcessor_task [OF assms] obtain p pre post k where
    k: "proc = Some p" "postProcess (processor p ext) = Some post" "ts = [k]"
    and res: "res = (case ending (LinterTask M k) of
                 Failure e \<Rightarrow> Rejected e
               | Stalled \<Rightarrow> Pending
               | Complete \<Rightarrow> lintComplete post ext fp (emitted (LinterTask M k)))"
    by blast
  have "\<forall>r. res = Resolved r \<longrightarrow>
      (\<exists>path ms. filePath r = Some path \<and> path \<noteq> [] \<and> messages r = Array ms)"
    using res by (auto split: ending.splits dest: lintComplete_Resolved)
  moreover have "ending (LinterTask M k) = Complete \<longrightarrow>
      res = lintComplete post ext fp (emitted (LinterTask M k))"
    using res by simp
  ultimately show ?thesis using k by blast
qed

lemma lint_placeholder_example:
  "lintText exampleModules (exampleCore [(''no-q'', noQ)]) ''quiz'' ''.txt''
     = Inr ([\<lparr>t_config = (), t_rules = [(''no-q'', noQ)], t_rulesConfig = (),
              t_sourceCode = \<lparr>sc_text = ''quiz'', sc_ast = ''quiz'', sc_ext = ''.txt'',
                               sc_filePath = None\<rparr>\<rparr>],
            Resolved \<lparr>filePath = Some ''<Unkown.txt>'',
              messages = Array [\<lparr>ruleId = ''no-q'', line = 1, column = 1,
                                  message = ''q found'', m_fix = None\<rparr>]\<rparr>)"
  by (simp add: lintText_def lintByProcessor_def lintComplete_def example_defs Let_def)

text \<open>
  Claim C4. The claim says that a result without the \<^verbatim>\<open>messages\<close> field is a violation of
  the contract, caught by the assertion ``postProcess should return { messages, filePath }''.
  The code reads \<^verbatim>\<open>result.messages.length\<close> inside the condition of that assertion: for a
  processor that returns the path \<^verbatim>\<open>a.txt\<close> and no \<^verbatim>\<open>messages\<close>, the lint invocation fails
  with the TypeError of that read, not with the assertion. The assertion does fail for a
  \<^verbatim>\<open>messages\<close> value without a length and for an empty file path.
\<close>

theorem lint_missing_messages_TypeError:
  "(case lintByProcessor exampleModules (exampleCore [(''no-q'', noQ)])
           (Some (shaped (Some ''a.txt'') Missing)) ''quiz'' ''.txt'' None of
      Inr (ts, res) \<Rightarrow> res = Rejected TypeError
    | Inl err \<Rightarrow> False)
   \<and> (case lintByProcessor exampleModules (exampleCore [(''no-q'', noQ)])
              (Some (shaped (Some ''a.txt'') NoLength)) ''quiz'' ''.txt'' None of
        Inr (ts, res) \<Rightarrow>
          res = Rejected (AssertionError ''postProcess should return { messages, filePath } '')
      | Inl err \<Rightarrow> False)
   \<and> (case lintByProcessor exampleModules (exampleCore [(''no-q'', noQ)])
              (Some (shaped (Some []) (Array []))) ''quiz'' ''.txt'' None of
        Inr (ts, res) \<Rightarrow>
          res = Rejected (AssertionError ''postProcess should return { messages, filePath } '')
      | Inl err \<Rightarrow> False)
   \<and> (case lintByProcessor exampleModules (exampleCore [(''no-q'', noQ)])
              (Some (shaped None (Array []))) ''quiz'' ''.txt'' None of
        Inr (ts, res) \<Rightarrow> res = Resolved \<lparr>filePath = Some ''<Unkown.txt>'', messages = Array []\<rparr>
      | Inl err \<Rightarrow> False)"
  by (simp add: lintByProcessor_def lintComplete_def shaped_def example_defs Let_def)

section \<open>The order of the results of a batch\<close>

lemma rejections_Nil: "rejections i ps = [] \<longleftrightarrow> (\<forall>e. Rejected e \<notin> set ps)"
proof (induction ps arbitrary: i)
  case Nil
  show ?case by simp
next
  case (Cons p ps)
  then show ?case by (cases p) auto
qed

lemma resolvedValues_Some: "resolvedValues ps = Some xs \<longleftrightarrow> ps = map Resolved xs"
proof (induction ps arbitrary: xs)
  case Nil
  show ?case by auto
next
  case (Cons p ps)
  then show ?case by (cases p) auto
qed

lemma promiseAll_Resolved: "promiseAll settled ps = Resolved xs \<longleftrightarrow> ps = map Resolved xs"
proof
  assume "promiseAll settled ps = Resolved xs"
  then have "resolvedValues ps = Some xs"
    by (auto simp: promiseAll_def split: list.splits option.splits)
  then show "ps = map Resolved xs" by (simp add: resolvedValues_Some)
next
  assume ps: "ps = map Resolved xs"
  then have "rejections 0 ps = []" by (auto simp: rejections_Nil)
  moreover from ps have "resolvedValues ps = Some xs" by (simp add: resolvedValues_Some)
  ultimately show "promiseAll settled ps = Resolved xs" by (simp add: promiseAll_def)
qed

lemma promiseAll_Rejected:
  "Rejected e \<in> set ps \<Longrightarrow> \<exists>e'. promiseAll settled ps = Rejected e'"
proof -
  assume "Rejected e \<in> set ps"
  then have "rejections 0 ps \<noteq> []" by (auto simp: rejections_Nil)
  then show ?thesis by (auto simp: promiseAll_def split: list.splits)
qed

lemma batch_in_order:
  assumes "mapThrowing f targets = Inr rs" and "promiseAll settled (map snd rs) = Resolved xs"
  shows "length xs = length targets"
    and "\<forall>i < length xs. \<exists>ts. f (targets ! i) = Inr (ts, Resolved (xs ! i))"
    and "promiseAll settled' (map snd rs) = Resolved xs"
proof -
  from assms(2) have snd: "map snd rs = map Resolved xs" by (simp add: promiseAll_Resolved)
  then show "promiseAll settled' (map snd rs) = Resolved xs" by (simp add: promiseAll_Resolved)
  from snd have len: "length rs = length xs" by (metis length_map)
  from mapThrowing_Inr [OF assms(1)] have m: "length rs = length targets"
    "\<forall>i < length targets. f (targets ! i) = Inr (rs ! i)" by simp_all
  from len m show "length xs = length targets" by simp
  show "\<forall>i < length xs. \<exists>ts. f (targets ! i) = Inr (ts, Resolved (xs ! i))"
  proof (intro allI impI)
    fix i assume i: "i < length xs"
    with len have "snd (rs ! i) = map snd rs ! i" by simp
    also from snd i have "\<dots> = Resolved (xs ! i)" by simp
    finally have "rs ! i = (fst (rs ! i), Resolved (xs ! i))" by (metis prod.collapse)
    with m i len show "\<exists>ts. f (targets ! i) = Inr (ts, Resolved (xs ! i))" by metis
  qed
qed

text \<open>
  Claim C7. When \<^verbatim>\<open>executeOnFiles\<close> or \<^verbatim>\<open>fixFiles\<close> resolves, its list has one result for
  each target file, and the result at index \<open>i\<close> is the one of the target at index \<open>i\<close>;
  the list is the same for every order in which the promises of the targets settle.
\<close>

theorem batch_results_keep_target_order:
  "(executeOnFiles N M settled E fs = Inr (Resolved xs) \<longrightarrow>
      length xs = length (findFiles M fs (engineExtensions E))
      \<and> (\<forall>i < length xs. \<exists>ts.
           lintFile N M (textLint E) (findFiles M fs (engineExtensions E) ! i)
             = Inr (ts, Resolved (xs ! i)))
      \<and> (\<forall>settled'. executeOnFiles N M settled' E fs = Inr (Resolved xs)))
   \<and> (fixFiles N M settled E fs = Inr (Resolved ys) \<longrightarrow>
      length ys = length (findFiles M fs (engineExtensions E))
      \<and> (\<forall>i < length ys. \<exists>ts.
           fixFile N M (textLint E) (findFiles M fs (engineExtensions E) ! i)
             = Inr (ts, Resolved (ys ! i)))
      \<and> (\<forall>settled'. fixFiles N M settled' E fs = Inr (Resolved ys)))"
proof (intro conjI impI)
  assume run: "executeOnFiles N M settled E fs = Inr (Resolved xs)"
  then obtain rs where rs: "lintTargets N M E fs = Inr rs"
    "promiseAll settled (map snd rs) = Resolved xs"
    by (auto simp: executeOnFiles_def split: sum.splits)
  from rs(1) have m: "mapThrowing (\<lambda>file. lintFile N M (textLint E) file)
      (findFiles M fs (engineExtensions E)) = Inr rs"
    by (simp add: lintTargets_def)
  note b = batch_in_order [OF m rs(2)]
  show "length xs = length (findFiles M fs (engineExtensions E))" by (rule b(1))
  show "\<forall>i < length xs. \<exists>ts.
          lintFile N M (textLint E) (findFiles M fs (engineExtensions E) ! i)
            = Inr (ts, Resolved (xs ! i))" by (rule b(2))
  show "\<forall>settled'. executeOnFiles N M settled' E fs = Inr (Resolved xs)"
    using rs(1) b(3) by (simp add: executeOnFiles_def)
next
  assume run: "fixFiles N M settled E fs = Inr (Resolved ys)"
  then obtain rs where rs: "fixTargets N M E fs = Inr rs"
    "promiseAll settled (map snd rs) = Resolved ys"
    by (auto simp: fixFiles_def split: sum.splits)
  from rs(1) have m: "mapThrowing (\<lambda>file. fixFile N M (textLint E) file)
      (findFiles M fs (engineExtensions E)) = Inr rs"
    by (simp add: fixTargets_def)
  note b = batch_in_order [OF m rs(2)]
  show "length ys = length (findFiles M fs (engineExtensions E))" by (rule b(1))
  show "\<forall>i < length ys. \<exists>ts.
          fixFile N M (textLint E) (findFiles M fs (engineExtensions E) ! i)
            = Inr (ts, Resolved (ys ! i))" by (rule b(2))
  show "\<forall>settled'. fixFiles N M settled' E fs = Inr (Resolved ys)"
    using rs(1) b(3) by (simp add: fixFiles_def)
qed


theorem batch_results_keep_target_order_witness:
  "executeOnFiles exampleNode exampleModules (\<lambda>i. 5 - i)
      (exampleEngine [(''no-a'', noA), (''no-q'', noQ)]) [''q.txt'', ''x.png'', ''a.md'', ''c.txt'']
     = Inr (Resolved
        [\<lparr>filePath = Some ''/w/q.txt'',
          messages = Array [\<lparr>ruleId = ''no-q'', line = 1, column = 1, message = ''q found'',
                        m_fix = None\<rparr>]\<rparr>,
         \<lparr>filePath = Some ''/w/a.md'',
          messages = Array [\<lparr>ruleId = ''no-a'', line = 1, column = 1,
                        message = ''unexpected first character'',
                        m_fix = Some \<lparr>fx_start = 0, fx_end = 1, fx_text = ''b''\<rparr>\<rparr>]\<rparr>,
         \<lparr>filePath = Some ''/w/c.txt'', messages = Array []\<rparr>])
   \<and> executeOnFiles exampleNode exampleModules (\<lambda>i. i)
      (exampleEngine [(''no-a'', noA), (''no-q'', noQ)]) [''q.txt'', ''x.png'', ''a.md'', ''c.txt'']
     = executeOnFiles exampleNode exampleModules (\<lambda>i. 5 - i)
      (exampleEngine [(''no-a'', noA), (''no-q'', noQ)]) [''q.txt'', ''x.png'', ''a.md'', ''c.txt'']
   \<and> fixFiles exampleNode exampleModules (\<lambda>i. 5 - i)
      (exampleEngine [(''no-a'', noA), (''no-q'', noQ)]) [''a.md'', ''x.png'', ''q.txt'']
     = Inr (Resolved
        [\<lparr>fr_filePath = Some ''a.md'', fr_output = ''bbc'',
          fr_originalMessages = [\<lparr>ruleId = ''no-a'', line = 1, column = 1,
                        message = ''unexpected first character'',
                        m_fix = Some \<lparr>fx_start = 0, fx_end = 1, fx_text = ''b''\<rparr>\<rparr>],
          fr_applyingMessages = [\<lparr>ruleId = ''no-a'', line = 1, column = 1,
                        message = ''unexpected first character'',
                        m_fix = Some \<lparr>fx_start = 0, fx_end = 1, fx_text = ''b''\<rparr>\<rparr>],
          fr_remainingMessages = []\<rparr>,
         \<lparr>fr_filePath = Some ''q.txt'', fr_output = ''q'', fr_originalMessages = [],
          fr_applyingMessages = [], fr_remainingMessages = []\<rparr>])
   \<and> fixFiles exampleNode exampleModules (\<lambda>i. i)
      (exampleEngine [(''no-a'', noA), (''no-q'', noQ)]) [''a.md'', ''x.png'', ''q.txt'']
     = fixFiles exampleNode exampleModules (\<lambda>i. 5 - i)
      (exampleEngine [(''no-a'', noA), (''no-q'', noQ)]) [''a.md'', ''x.png'', ''q.txt'']"
proof -
  let ?E = "exampleEngine [(''no-a'', noA), (''no-q'', noQ)]"
  let ?fs = "[''q.txt'', ''x.png'', ''a.md'', ''c.txt'']"
  let ?gs = "[''a.md'', ''x.png'', ''q.txt'']"
  let ?ma = "\<lparr>ruleId = ''no-a'', line = 1, column = 1, message = ''unexpected first character'',
              m_fix = Some \<lparr>fx_start = 0, fx_end = 1, fx_text = ''b''\<rparr>\<rparr>"
  let ?xs = "[\<lparr>filePath = Some ''/w/q.txt'',
          messages = Array [\<lparr>ruleId = ''no-q'', line = 1, column = 1, message = ''q found'',
                        m_fix = None\<rparr>]\<rparr>,
         \<lparr>filePath = Some ''/w/a.md'', messages = Array [?ma]\<rparr>,
         \<lparr>filePath = Some ''/w/c.txt'', messages = Array []\<rparr>]"
  let ?ys = "[\<lparr>fr_filePath = Some ''a.md'', fr_output = ''bbc'', fr_originalMessages = [?ma],
          fr_applyingMessages = [?ma], fr_remainingMessages = []\<rparr>,
         \<lparr>fr_filePath = Some ''q.txt'', fr_output = ''q'', fr_originalMessages = [],
          fr_applyingMessages = [], fr_remainingMessages = []\<rparr>]"
  have run: "executeOnFiles exampleNode exampleModules (\<lambda>i. 5 - i) ?E ?fs = Inr (Resolved ?xs)"
    by (simp add: executeOnFiles_def lintTargets_def lintFile_def lintByProcessor_def
        lintComplete_def promiseAll_def exampleEngine_def exampleNode_def example_extnames
        example_defs Let_def)
  have fixrun: "fixFiles exampleNode exampleModules (\<lambda>i. 5 - i) ?E ?gs = Inr (Resolved ?ys)"
    by (simp add: fixFiles_def fixTargets_def fixFile_def fixProcess_def fixerProcess_def
        thenFixerProcess_def promiseAll_def exampleEngine_def exampleNode_def example_extnames
        example_defs Let_def)
  note inst = batch_results_keep_target_order
    [where N = exampleNode and M = exampleModules and settled = "\<lambda>i. 5 - i" and E = ?E]
  note l = inst [THEN conjunct1, THEN mp, OF run, THEN conjunct2, THEN conjunct2, THEN spec,
      of "\<lambda>i. i"]
  note f = inst [THEN conjunct2, THEN mp, OF fixrun, THEN conjunct2, THEN conjunct2, THEN spec,
      of "\<lambda>i. i"]
  from l f run fixrun show ?thesis by simp
qed

section \<open>Determinism of the lint pipeline\<close>





section \<open>The extension argument of the engine\<close>

lemma lintText_Inl: "lintText M c src ext = Inl err \<Longrightarrow> \<exists>msg. err = AssertionError msg"
  by (auto simp: lintText_def lintByProcessor_def Let_def split: option.splits)

lemma fixText_Inl: "fixText M c src ext = Inl err \<Longrightarrow> err = TypeError"
  by (auto simp: fixText_def fixProcess_def Let_def split: option.splits)

text \<open>
  Claim C9. \<^verbatim>\<open>executeOnText\<close> and the engine's \<^verbatim>\<open>fixText\<close> throw the error ``should specify
  the extension'' when \<^verbatim>\<open>ext\<close> does not start with a dot and \<^verbatim>\<open>path.extname\<close> finds no
  extension in it. When \<^verbatim>\<open>ext\<close> starts with a dot they do not throw this error and go on
  to \<^verbatim>\<open>lintText\<close> or \<^verbatim>\<open>fixText\<close> of the core with \<^verbatim>\<open>ext\<close> itself.
\<close>

theorem extension_is_required:
  "((\<forall>rest. ext \<noteq> CHR ''.'' # rest) \<and> extname N ext = [] \<longrightarrow>
      executeOnText N M E src ext = Inl extensionError
      \<and> engineFixText N M E src ext = Inl extensionError)
   \<and> ((\<exists>rest. ext = CHR ''.'' # rest) \<longrightarrow>
      executeOnText N M E src ext \<noteq> Inl extensionError
      \<and> engineFixText N M E src ext \<noteq> Inl extensionError
      \<and> executeOnText N M E src ext =
          (case lintText M (textLint E) src ext of
             Inl err \<Rightarrow> Inl err
           | Inr r \<Rightarrow> Inr (then_value (snd r) (\<lambda>result. [result])))
      \<and> engineFixText N M E src ext =
          (case fixText M (textLint E) src ext of
             Inl err \<Rightarrow> Inl err
           | Inr r \<Rightarrow> Inr (then_value (snd r) (\<lambda>result. [result]))))"
proof (intro conjI impI)
  assume a: "(\<forall>rest. ext \<noteq> CHR ''.'' # rest) \<and> extname N ext = []"
  then have "actualExt N ext = []"
    by (cases ext) (simp_all add: actualExt_def)
  then show "executeOnText N M E src ext = Inl extensionError"
    and "engineFixText N M E src ext = Inl extensionError"
    by (simp_all add: executeOnText_def engineFixText_def)
next
  assume "\<exists>rest. ext = CHR ''.'' # rest"
  then have act: "actualExt N ext = ext" "ext \<noteq> []"
    by (auto simp: actualExt_def)
  from act show l: "executeOnText N M E src ext =
          (case lintText M (textLint E) src ext of
             Inl err \<Rightarrow> Inl err
           | Inr r \<Rightarrow> Inr (then_value (snd r) (\<lambda>result. [result])))"
    by (simp add: executeOnText_def)
  from act show f: "engineFixText N M E src ext =
          (case fixText M (textLint E) src ext of
             Inl err \<Rightarrow> Inl err
           | Inr r \<Rightarrow> Inr (then_value (snd r) (\<lambda>result. [result])))"
    by (simp add: engineFixText_def)
  show "executeOnText N M E src ext \<noteq> Inl extensionError"
    unfolding l by (auto simp: extensionError_def split: sum.splits dest: lintText_Inl)
  show "engineFixText N M E src ext \<noteq> Inl extensionError"
    unfolding f by (auto simp: extensionError_def split: sum.splits dest: fixText_Inl)
qed

theorem extension_is_required_witness:
  "executeOnText exampleNode exampleModules (exampleEngine [(''no-q'', noQ)]) ''quiz'' ''txt''
     = Inl (Error (''should specify the extension.'' @ [CHR 0x0A] @ ''ex) .md''))
   \<and> engineFixText exampleNode exampleModules (exampleEngine [(''no-q'', noQ)]) ''quiz'' []
     = Inl (Error (''should specify the extension.'' @ [CHR 0x0A] @ ''ex) .md''))
   \<and> executeOnText exampleNode exampleModules (exampleEngine [(''no-q'', noQ)]) ''quiz'' ''.txt''
     = Inr (Resolved [\<lparr>filePath = Some ''<Unkown.txt>'',
              messages = Array [\<lparr>ruleId = ''no-q'', line = 1, column = 1, message = ''q found'',
                            m_fix = None\<rparr>]\<rparr>])
   \<and> executeOnText exampleNode exampleModules (exampleEngine [(''no-q'', noQ)]) ''quiz''
        ''notes/draft.md''
     = Inr (Resolved [\<lparr>filePath = Some ''<Unkown.md>'',
              messages = Array [\<lparr>ruleId = ''no-q'', line = 1, column = 1, message = ''q found'',
                            m_fix = None\<rparr>]\<rparr>])"
proof -
  let ?E = "exampleEngine [(''no-q'', noQ)]"
  have n: "extname exampleNode ''txt'' = []" "extname exampleNode [] = []"
    by (simp_all add: exampleNode_def example_extnames)
  have "executeOnText exampleNode exampleModules ?E ''quiz'' ''txt'' = Inl extensionError"
    using extension_is_required [of "''txt''" exampleNode exampleModules ?E "''quiz''"] n
    by simp
  moreover have "engineFixText exampleNode exampleModules ?E ''quiz'' [] = Inl extensionError"
    using extension_is_required [of "[]" exampleNode exampleModules ?E "''quiz''"] n
    by simp
  moreover have "executeOnText exampleNode exampleModules ?E ''quiz'' ''.txt''
      = (case lintText exampleModules (textLint ?E) ''quiz'' ''.txt'' of
           Inl err \<Rightarrow> Inl err
         | Inr r \<Rightarrow> Inr (then_value (snd r) (\<lambda>result. [result])))"
    using extension_is_required [of "''.txt''" exampleNode exampleModules ?E "''quiz''"]
    by simp
  ultimately show ?thesis
    by (simp add: extensionError_def executeOnText_def actualExt_def lintText_def
        lintByProcessor_def lintComplete_def exampleEngine_def exampleNode_def example_extnames
        example_defs Let_def)
qed

end
